theory Spec2Isabelle
  imports Complex_Main "HOL-Library.Word"
begin

section \<open>Go values\<close>

text \<open>
  A Go \<open>string\<close> is modelled as a \<open>string\<close> whose characters are code points
  (runes) in the range U+0000..U+00FF, a \<open>[]byte\<close> as a list of 8-bit words, Go's
  \<open>int\<close> as \<open>int\<close> and a UUID as a 128-bit word. A Go \<open>error\<close> is a value of
  the datatype below; a function returning \<open>(T, error)\<close> returns a sum with
  \<open>Inl\<close> for the error.
\<close>

type_synonym byte = "8 word"
type_synonym uuid = "128 word"

definition uuid_Nil :: uuid where
  "uuid_Nil = 0"

datatype error =
    Failure string
      \<comment> \<open>an error reported by a library, tool or service outside the repository\<close>
  | EOF
  | ErrUnexpectedEOF
  | NoStreams
      \<comment> \<open>\<open>errors.New("ffprobe returned no streams")\<close>\<close>
  | NoGeometry
      \<comment> \<open>\<open>errors.New("ffprobe did not provide valid width/height")\<close>\<close>
  | FastStartFailed error string
      \<comment> \<open>\<open>fmt.Errorf("ffmpeg faststart failed: %v: %s", err, stderr.String())\<close>\<close>
  | NoURLToSign
      \<comment> \<open>\<open>fmt.Errorf("video has no URL to sign")\<close>\<close>
  | InvalidURLFormat
      \<comment> \<open>\<open>fmt.Errorf("invalid video URL format: expected 'bucket,key'")\<close>\<close>
  | InvalidBucketOrKey
      \<comment> \<open>\<open>fmt.Errorf("invalid bucket or key in video URL")\<close>\<close>

subsection \<open>float64\<close>

text \<open>
  A finite \<open>float64\<close> is represented by the rational number it denotes. Every
  arithmetic operation of IEEE 754 binary64 returns the exact result rounded to a 53-bit
  significand, to nearest, ties to even: \<open>float64 x\<close> is that rounding of the exact
  value \<open>x\<close>. The exponent is left unbounded, so the model is the machine's wherever
  no overflow and no subnormal occurs (magnitudes from \<open>2^-1022\<close> up to \<open>2^1024\<close>), which
  holds for quotients and differences of 64-bit integers.
\<close>

definition rne :: "rat \<Rightarrow> int" where
  \<comment> \<open>nearest integer, ties to the even one\<close>
  "rne x = (let f = \<lfloor>x\<rfloor>; r = x - of_int f in
     if r < 1 / 2 then f else if 1 / 2 < r then f + 1 else if even f then f else f + 1)"

fun ilog2 :: "nat \<Rightarrow> nat" where
  \<comment> \<open>\<open>\<lfloor>log\<^sub>2 n\<rfloor>\<close> for \<open>n > 0\<close>\<close>
  "ilog2 n = (if n < 2 then 0 else Suc (ilog2 (n div 2)))"

declare ilog2.simps [simp del]

definition exponent :: "rat \<Rightarrow> int" where
  \<comment> \<open>\<open>\<lfloor>log\<^sub>2 a\<rfloor>\<close> for \<open>a > 0\<close>\<close>
  "exponent a = (if 1 \<le> a then int (ilog2 (nat \<lfloor>a\<rfloor>))
                 else - int (ilog2 (nat (\<lceil>1 / a\<rceil> - 1))) - 1)"

definition pow2 :: "int \<Rightarrow> rat" where
  "pow2 e = (if 0 \<le> e then 2 ^ nat e else 1 / 2 ^ nat (- e))"

definition float64 :: "rat \<Rightarrow> rat" where
  "float64 x = (if x = 0 then 0 else
     let e = exponent \<bar>x\<bar> - 52;
         m = rne (\<bar>x\<bar> / pow2 e)
     in sgn x * of_int m * pow2 e)"

subsection \<open>Package strings\<close>

definition isSpace :: "char \<Rightarrow> bool" where
  \<comment> \<open>\<open>unicode.IsSpace\<close> on U+0000..U+00FF\<close>
  "isSpace c = (c \<in> {CHR 0x09, CHR 0x0A, CHR 0x0B, CHR 0x0C, CHR 0x0D, CHR 0x20,
                      CHR 0x85, CHR 0xA0})"

definition TrimSpace :: "string \<Rightarrow> string" where
  "TrimSpace s = rev (dropWhile isSpace (rev (dropWhile isSpace s)))"

fun SplitN :: "string \<Rightarrow> char \<Rightarrow> nat \<Rightarrow> string list" where
  \<comment> \<open>\<open>strings.SplitN(s, sep, n)\<close> for a separator of one character and \<open>n \<ge> 0\<close>: at
      most \<open>n\<close> pieces, the last one the unsplit remainder\<close>
  "SplitN s sep 0 = []"
| "SplitN s sep (Suc n) =
     (if n = 0 \<or> sep \<notin> set s then [s]
      else takeWhile (\<lambda>c. c \<noteq> sep) s # SplitN (tl (dropWhile (\<lambda>c. c \<noteq> sep) s)) sep n)"

subsection \<open>Formatting and reading bytes\<close>

definition hexdigit :: "nat \<Rightarrow> char" where
  "hexdigit n = ''0123456789abcdef'' ! n"

definition hex_byte :: "byte \<Rightarrow> string" where
  "hex_byte b = [hexdigit (unat b div 16), hexdigit (unat b mod 16)]"

definition sprintf_x :: "byte list \<Rightarrow> string" where
  \<comment> \<open>\<open>fmt.Sprintf("%x", bs)\<close> on a byte array: two lower-case digits a byte\<close>
  "sprintf_x bs = concat (map hex_byte bs)"

definition ReadFull :: "byte list \<Rightarrow> nat \<Rightarrow> error + byte list" where
  \<comment> \<open>\<open>io.ReadFull(r, buf)\<close> with \<open>len(buf) = n\<close>, on a reader that has the bytes
      \<open>r\<close> left: exactly \<open>n\<close> bytes or an error\<close>
  "ReadFull r n =
     (if n \<le> length r then Inr (take n r)
      else if r = [] then Inl EOF else Inl ErrUnexpectedEOF)"

section \<open>The data of the handlers\<close>

record Video =
  \<comment> \<open>the fields of \<open>database.Video\<close> that the handlers read or write\<close>
  ID :: uuid
  UserID :: uuid
  VideoURL :: "string option"
  ThumbnailURL :: "string option"

record ffprobeStream =
  Width :: int
  Height :: int

record ffprobeResult =
  Streams :: "ffprobeStream list"

record PutObjectInput =
  Bucket :: string
  Key :: string
  Body :: "byte list"
  ContentType :: string

record apiConfig =
  jwtSecret :: string
  s3Bucket :: string

datatype ffmpeg_run =
  \<comment> \<open>one run of the external \<open>ffmpeg\<close>: either \<open>cmd.Run()\<close> returns no error and
      the tool has written its output file, or it returns an error, with what the tool
      printed on stderr and what it left at its output path, if anything\<close>
    Done "byte list"
  | Failed error string "byte list option"

text \<open>
  Everything one request obtains from outside the repository's code: the request itself,
  the libraries, the external tools and the services. Each field is the result of the call
  named after it.
\<close>

record env =
  PathValue :: string
    \<comment> \<open>\<open>r.PathValue("videoID")\<close>\<close>
  uuid_Parse :: "string \<Rightarrow> error + uuid"
  GetBearerToken :: "error + string"
  ValidateJWT :: "string \<Rightarrow> string \<Rightarrow> error + uuid"
  GetVideo :: "uuid \<Rightarrow> error + Video"
  ParseMultipartForm :: "error option"
    \<comment> \<open>on the body limited to \<open>1 << 30\<close> bytes, with \<open>32 << 20\<close> bytes of memory\<close>
  ParseMultipartForm_files :: "(string \<times> byte list) list"
    \<comment> \<open>the \<open>multipart-*\<close> files that call has written in the temporary directory and
        left there when it returns: it keeps \<open>maxMemory\<close> bytes of file parts in memory and
        writes a file part beyond that to disk\<close>
  FormFile :: "error + string \<times> byte list"
    \<comment> \<open>\<open>r.FormFile("video")\<close>: the part's Content-Type header and its bytes\<close>
  ParseMediaType :: "string \<Rightarrow> error + string"
  CreateTemp :: "error + string"
    \<comment> \<open>\<open>os.CreateTemp("", "tubely-upload-*.mp4")\<close>: the name of the new file\<close>
  Copy :: "(nat \<times> error) option"
    \<comment> \<open>\<open>io.Copy(tempFile, file)\<close>: \<open>Some (n, err)\<close> when it fails after \<open>n\<close> bytes\<close>
  Seek :: "error option"
  ffmpeg :: "string \<Rightarrow> string \<Rightarrow> ffmpeg_run"
    \<comment> \<open>\<open>ffmpeg -i input -c copy -movflags faststart -f mp4 output\<close>\<close>
  Open :: "string \<Rightarrow> error option"
    \<comment> \<open>an error of \<open>os.Open\<close> on an existing file\<close>
  rand_Reader :: "byte list"
  ffprobe :: "string \<Rightarrow> error + string"
    \<comment> \<open>\<open>ffprobe -v error -print_format json -show_streams input\<close>: its stdout\<close>
  json_Unmarshal :: "string \<Rightarrow> error + ffprobeResult"
  PutObject :: "PutObjectInput \<Rightarrow> error option"
  UpdateVideo :: "Video \<Rightarrow> error option"
  PresignGetObject :: "string \<Rightarrow> string \<Rightarrow> nat \<Rightarrow> error + string"
    \<comment> \<open>bucket, key and validity in nanoseconds\<close>

datatype handle = Part string | File string

record world =
  \<comment> \<open>what a request changes: the local files, the names of the files created so
      far (a history), the open handles, and the calls made to the object store and to
      the database\<close>
  files :: "string \<rightharpoonup> byte list"
  created :: "string list"
  handles :: "handle list"
  put_calls :: "PutObjectInput list"
  update_calls :: "Video list"

datatype response = ErrorResponse nat string | JSONResponse nat Video

fun status :: "response \<Rightarrow> nat" where
  "status (ErrorResponse code msg) = code"
| "status (JSONResponse code payload) = code"

abbreviation StatusOK :: nat where "StatusOK \<equiv> 200"
abbreviation StatusBadRequest :: nat where "StatusBadRequest \<equiv> 400"
abbreviation StatusUnauthorized :: nat where "StatusUnauthorized \<equiv> 401"
abbreviation StatusNotFound :: nat where "StatusNotFound \<equiv> 404"
abbreviation StatusInternalServerError :: nat where "StatusInternalServerError \<equiv> 500"

definition respondWithError :: "nat \<Rightarrow> string \<Rightarrow> response" where
  "respondWithError code msg = ErrorResponse code msg"

definition respondWithJSON :: "nat \<Rightarrow> Video \<Rightarrow> response" where
  "respondWithJSON code payload = JSONResponse code payload"

subsection \<open>Files and deferred calls\<close>

definition write_file :: "string \<Rightarrow> byte list \<Rightarrow> world \<Rightarrow> world" where
  \<comment> \<open>a file comes to exist with these bytes\<close>
  "write_file name bs s = s\<lparr>files := (files s)(name \<mapsto> bs), created := created s @ [name]\<rparr>"

fun spill :: "(string \<times> byte list) list \<Rightarrow> world \<Rightarrow> world" where
  \<comment> \<open>the files a library call leaves on disk\<close>
  "spill [] s = s"
| "spill ((name, bs) # fs) s = spill fs (write_file name bs s)"

definition os_Remove :: "string \<Rightarrow> world \<Rightarrow> world" where
  \<comment> \<open>the handler ignores the error of \<open>os.Remove\<close>; removing an absent file changes
      nothing\<close>
  "os_Remove name s = s\<lparr>files := (files s)(name := None)\<rparr>"

definition os_Open :: "env \<Rightarrow> string \<Rightarrow> world \<Rightarrow> error + world" where
  "os_Open env name s =
     (case files s name of
        None \<Rightarrow> Inl (Failure ''no such file or directory'')
      | Some bs \<Rightarrow>
          (case Open env name of
             Some err \<Rightarrow> Inl err
           | None \<Rightarrow> Inr (s\<lparr>handles := File name # handles s\<rparr>)))"

definition read_all :: "world \<Rightarrow> string \<Rightarrow> byte list" where
  \<comment> \<open>the bytes an open file yields when read from its start\<close>
  "read_all s name = (case files s name of None \<Rightarrow> [] | Some bs \<Rightarrow> bs)"

datatype deferred = Close handle | Remove string

fun run_deferred :: "deferred list \<Rightarrow> world \<Rightarrow> world" where
  \<comment> \<open>the deferred calls run when the function returns, the last deferred first: the
      list is a stack with the last deferred call at its head\<close>
  "run_deferred [] s = s"
| "run_deferred (Close h # ds) s = run_deferred ds (s\<lparr>handles := remove1 h (handles s)\<rparr>)"
| "run_deferred (Remove name # ds) s = run_deferred ds (os_Remove name s)"

section \<open>ffprobe.go\<close>

fun first_geometry :: "ffprobeStream list \<Rightarrow> int \<times> int" where
  \<comment> \<open>the loop of \<open>getVideoAspectRatio\<close>: the first stream with width and height
      \<open>> 0\<close>, and \<open>(0, 0)\<close> when there is none\<close>
  "first_geometry [] = (0, 0)"
| "first_geometry (s # ss) =
     (if Width s > 0 \<and> Height s > 0 then (Width s, Height s) else first_geometry ss)"

definition ratio169 :: rat where "ratio169 = 16 / 9"
definition ratio916 :: rat where "ratio916 = 9 / 16"
definition tol :: rat where "tol = 2 / 100"

definition aspect_of :: "int \<Rightarrow> int \<Rightarrow> string" where
  \<comment> \<open>lines 57 to 70 of \<open>getVideoAspectRatio\<close>; the constants are exact and are rounded
      to \<open>float64\<close> where they meet the variable \<open>ratio\<close>\<close>
  "aspect_of w h =
     (let ratio = float64 (float64 (of_int w) / float64 (of_int h)) in
      if \<bar>float64 (ratio - float64 ratio169)\<bar> \<le> float64 tol then ''16:9''
      else if \<bar>float64 (ratio - float64 ratio916)\<bar> \<le> float64 tol then ''9:16''
      else ''other'')"

definition getVideoAspectRatio :: "env \<Rightarrow> string \<Rightarrow> error + string" where
  "getVideoAspectRatio env filePath =
     (case ffprobe env filePath of
        Inl err \<Rightarrow> Inl err
      | Inr stdout \<Rightarrow>
     (case json_Unmarshal env stdout of
        Inl err \<Rightarrow> Inl err
      | Inr result \<Rightarrow>
          if length (Streams result) = 0 then Inl NoStreams
          else
            (case first_geometry (Streams result) of
               (w, h) \<Rightarrow>
                 if w = 0 \<or> h = 0 then Inl NoGeometry
                 else Inr (aspect_of w h))))"

section \<open>ffmpeg.go\<close>

definition processVideoForFastStart :: "env \<Rightarrow> string \<Rightarrow> world \<Rightarrow> (error + string) \<times> world" where
  "processVideoForFastStart env filePath s =
     (let outPath = filePath @ ''.processing'' in
      case ffmpeg env filePath outPath of
        Failed err msg left \<Rightarrow>
          (Inl (FastStartFailed err msg),
           case left of None \<Rightarrow> s | Some bs \<Rightarrow> write_file outPath bs s)
      | Done bs \<Rightarrow> (Inr outPath, write_file outPath bs s))"

section \<open>handler\_upload\_video.go\<close>

definition Minute :: nat where
  \<comment> \<open>\<open>time.Minute\<close>, in nanoseconds\<close>
  "Minute = 60 * 1000000000"

definition generatePresignedURL :: "env \<Rightarrow> string \<Rightarrow> string \<Rightarrow> nat \<Rightarrow> error + string" where
  "generatePresignedURL env bucket key expireTime =
     (case PresignGetObject env bucket key expireTime of
        Inl err \<Rightarrow> Inl err
      | Inr url \<Rightarrow> Inr url)"

definition dbVideoToSignedVideo :: "env \<Rightarrow> Video \<Rightarrow> Video \<times> error option" where
  "dbVideoToSignedVideo env video =
     (case VideoURL video of
        None \<Rightarrow> (video, Some NoURLToSign)
      | Some url \<Rightarrow>
          if TrimSpace url = [] then (video, Some NoURLToSign)
          else
            let parts = SplitN url (CHR '','') 2 in
            if length parts \<noteq> 2 then (video, Some InvalidURLFormat)
            else
              let bucket = TrimSpace (parts ! 0);
                  key = TrimSpace (parts ! 1)
              in if bucket = [] \<or> key = [] then (video, Some InvalidBucketOrKey)
                 else
                   (case generatePresignedURL env bucket key (15 * Minute) of
                      Inl err \<Rightarrow> (video, Some err)
                    | Inr signedURL \<Rightarrow> (video\<lparr>VideoURL := Some signedURL\<rparr>, None)))"

definition prefix_of :: "error + string \<Rightarrow> string" where
  \<comment> \<open>lines 126 to 134 of \<open>handlerUploadVideo\<close>, from the result of
      \<open>getVideoAspectRatio\<close>\<close>
  "prefix_of r =
     (case r of
        Inl err \<Rightarrow> ''other''
      | Inr aspect \<Rightarrow>
          if aspect = ''16:9'' then ''landscape''
          else if aspect = ''9:16'' then ''portrait''
          else ''other'')"

definition s3Key_of :: "string \<Rightarrow> byte list \<Rightarrow> string" where
  \<comment> \<open>\<open>fmt.Sprintf("%s/%x.mp4", prefix, rnd)\<close>\<close>
  "s3Key_of prefix rnd = prefix @ ''/'' @ sprintf_x rnd @ ''.mp4''"

definition commaDelimited_of :: "string \<Rightarrow> string \<Rightarrow> string" where
  \<comment> \<open>\<open>fmt.Sprintf("%s,%s", cfg.s3Bucket, s3Key)\<close>\<close>
  "commaDelimited_of bucket s3Key = bucket @ '','' @ s3Key"


definition intake ::
  "apiConfig \<Rightarrow> env \<Rightarrow> world
     \<Rightarrow> (response + Video \<times> string \<times> byte list) \<times> world \<times> deferred list" where
  \<comment> \<open>lines 22 to 82: the video, the media type and the bytes of the file part, or the
      response of the failed check; \<open>r.ParseMultipartForm(maxMemory)\<close> at line 61 leaves its
      files on disk, and the handler never removes them\<close>
  "intake cfg env s =
     (case uuid_Parse env (PathValue env) of
        Inl err \<Rightarrow> (Inl (respondWithError StatusBadRequest ''Invalid ID''), s, [])
      | Inr videoID \<Rightarrow>
     (case GetBearerToken env of
        Inl err \<Rightarrow> (Inl (respondWithError StatusUnauthorized ''Couldn't find JWT''), s, [])
      | Inr token \<Rightarrow>
     (case ValidateJWT env token (jwtSecret cfg) of
        Inl err \<Rightarrow> (Inl (respondWithError StatusUnauthorized ''Couldn't validate JWT''), s, [])
      | Inr userID \<Rightarrow>
     (case GetVideo env videoID of
        Inl err \<Rightarrow>
          (Inl (respondWithError StatusInternalServerError ''Error retrieving video''), s, [])
      | Inr video \<Rightarrow>
          if ID video = uuid_Nil
          then (Inl (respondWithError StatusNotFound ''Video not found''), s, [])
          else if UserID video \<noteq> userID
          then (Inl (respondWithError StatusUnauthorized ''You do not own this video''), s, [])
          else
          let s0 = spill (ParseMultipartForm_files env) s in
     (case ParseMultipartForm env of
        Some err \<Rightarrow> (Inl (respondWithError StatusBadRequest ''Error parsing form data''), s0, [])
      | None \<Rightarrow>
     (case FormFile env of
        Inl err \<Rightarrow>
          (Inl (respondWithError StatusBadRequest ''Missing or invalid 'video' file''), s0, [])
      | Inr (ct, content) \<Rightarrow>
          let s1 = s0\<lparr>handles := Part ''video'' # handles s0\<rparr>;
              ds = [Close (Part ''video'')]
          in
     (case ParseMediaType env ct of
        Inl err \<Rightarrow>
          (Inl (respondWithError StatusBadRequest ''Invalid Content-Type header''), s1, ds)
      | Inr mediaType \<Rightarrow>
          if mediaType = []
          then (Inl (respondWithError StatusBadRequest ''Invalid Content-Type header''), s1, ds)
          else if mediaType \<noteq> ''video/mp4''
          then (Inl (respondWithError StatusBadRequest
                       ''Unsupported media type; only video/mp4 allowed''), s1, ds)
          else (Inr (video, mediaType, content), s1, ds))))))))"

definition stage ::
  "env \<Rightarrow> byte list \<Rightarrow> deferred list \<Rightarrow> world
     \<Rightarrow> (response + string \<times> string) \<times> world \<times> deferred list" where
  \<comment> \<open>lines 84 to 117: the names of the staged original and of the open processed file,
      or the response of the failed step\<close>
  "stage env content ds s =
     (case CreateTemp env of
        Inl err \<Rightarrow>
          (Inl (respondWithError StatusInternalServerError ''Failed to create temp file''), s, ds)
      | Inr tempName \<Rightarrow>
          let s0 = write_file tempName [] s;
              s1 = s0\<lparr>handles := File tempName # handles s0\<rparr>;
              ds1 = Close (File tempName) # Remove tempName # ds
          in
     (case Copy env of
        Some (n, err) \<Rightarrow>
          (Inl (respondWithError StatusInternalServerError ''Failed to save video to temp file''),
           s1\<lparr>files := (files s1)(tempName \<mapsto> take n content)\<rparr>, ds1)
      | None \<Rightarrow>
          let s2 = s1\<lparr>files := (files s1)(tempName \<mapsto> content)\<rparr> in
     (case Seek env of
        Some err \<Rightarrow>
          (Inl (respondWithError StatusInternalServerError ''Failed to seek temp file''), s2, ds1)
      | None \<Rightarrow>
     (case processVideoForFastStart env tempName s2 of
        (Inl err, s3) \<Rightarrow>
          (Inl (respondWithError StatusInternalServerError
                  ''Failed to process video for fast start''), s3, ds1)
      | (Inr processedPath, s3) \<Rightarrow>
          let ds2 = Remove processedPath # ds1 in
     (case os_Open env processedPath s3 of
        Inl err \<Rightarrow>
          (Inl (respondWithError StatusInternalServerError
                  ''Failed to open processed file for upload''), s3, ds2)
      | Inr s4 \<Rightarrow>
          (Inr (tempName, processedPath), s4, Close (File processedPath) # ds2))))))"

definition publish ::
  "apiConfig \<Rightarrow> env \<Rightarrow> Video \<Rightarrow> string \<Rightarrow> string \<Rightarrow> string \<Rightarrow> world \<Rightarrow> response \<times> world" where
  \<comment> \<open>lines 119 to 166, which defer nothing\<close>
  "publish cfg env video mediaType tempName processedPath s =
     (case ReadFull (rand_Reader env) 32 of
        Inl err \<Rightarrow>
          (respondWithError StatusInternalServerError ''Failed to generate random filename'', s)
      | Inr rnd \<Rightarrow>
          let prefix = prefix_of (getVideoAspectRatio env tempName);
              s3Key = s3Key_of prefix rnd;
              putInput = \<lparr>Bucket = s3Bucket cfg, Key = s3Key,
                          Body = read_all s processedPath, ContentType = mediaType\<rparr>;
              s1 = s\<lparr>put_calls := put_calls s @ [putInput]\<rparr>
          in
     (case PutObject env putInput of
        Some err \<Rightarrow>
          (respondWithError StatusInternalServerError ''Failed to upload video to S3'', s1)
      | None \<Rightarrow>
          let video1 = video\<lparr>VideoURL := Some (commaDelimited_of (s3Bucket cfg) s3Key)\<rparr>;
              s2 = s1\<lparr>update_calls := update_calls s1 @ [video1]\<rparr>
          in
     (case UpdateVideo env video1 of
        Some err \<Rightarrow>
          (respondWithError StatusInternalServerError ''Failed to update video URL'', s2)
      | None \<Rightarrow>
     (case dbVideoToSignedVideo env video1 of
        (signedVideo, Some err) \<Rightarrow>
          (respondWithError StatusInternalServerError ''Failed to generate presigned URL'', s2)
      | (signedVideo, None) \<Rightarrow>
          (respondWithJSON StatusOK signedVideo, s2)))))"

definition handlerUploadVideo_body ::
  "apiConfig \<Rightarrow> env \<Rightarrow> world \<Rightarrow> response \<times> world \<times> deferred list" where
  \<comment> \<open>the body of \<open>handlerUploadVideo\<close> up to its return\<close>
  "handlerUploadVideo_body cfg env s =
     (case intake cfg env s of
        (Inl resp, s1, ds1) \<Rightarrow> (resp, s1, ds1)
      | (Inr (video, mediaType, content), s1, ds1) \<Rightarrow>
     (case stage env content ds1 s1 of
        (Inl resp, s2, ds2) \<Rightarrow> (resp, s2, ds2)
      | (Inr (tempName, processedPath), s2, ds2) \<Rightarrow>
     (case publish cfg env video mediaType tempName processedPath s2 of
        (resp, s3) \<Rightarrow> (resp, s3, ds2))))"

definition handlerUploadVideo :: "apiConfig \<Rightarrow> env \<Rightarrow> world \<Rightarrow> response \<times> world" where
  \<comment> \<open>the handler: its body, then the deferred calls\<close>
  "handlerUploadVideo cfg env s =
     (case handlerUploadVideo_body cfg env s of
        (resp, s', ds) \<Rightarrow> (resp, run_deferred ds s'))"

section \<open>Notions of the specification\<close>

text \<open>
  The words of the specification about stored references, requests and inspection, each
  stated on the data of the model and independently of the code it is compared with.
\<close>

definition trimmed :: "string \<Rightarrow> bool" where
  \<comment> \<open>no surrounding whitespace\<close>
  "trimmed s = (s = [] \<or> (\<not> isSpace (hd s) \<and> \<not> isSpace (last s)))"

definition blank :: "string \<Rightarrow> bool" where
  \<comment> \<open>empty or whitespace only\<close>
  "blank s = list_all isSpace s"

definition location_part :: "string \<Rightarrow> string" where
  \<comment> \<open>what stands before the first comma\<close>
  "location_part s = takeWhile (\<lambda>c. c \<noteq> CHR '','') s"

definition key_part :: "string \<Rightarrow> string" where
  \<comment> \<open>what stands after the first comma\<close>
  "key_part s = tl (dropWhile (\<lambda>c. c \<noteq> CHR '','') s)"

definition malformed :: "string option \<Rightarrow> bool" where
  \<comment> \<open>absent, blank, without a comma, or with a blank location or key\<close>
  "malformed r =
     (case r of
        None \<Rightarrow> True
      | Some s \<Rightarrow>
          blank s \<or> CHR '','' \<notin> set s \<or> blank (location_part s) \<or> blank (key_part s))"

definition signing_fails :: "env \<Rightarrow> string option \<Rightarrow> bool" where
  \<comment> \<open>the signing call, on the trimmed parts of the reference and for 15 minutes, returns
      an error\<close>
  "signing_fails env r =
     (case r of
        None \<Rightarrow> False
      | Some s \<Rightarrow>
          isl (PresignGetObject env (TrimSpace (location_part s)) (TrimSpace (key_part s))
                 (15 * Minute)))"

definition owner_request :: "apiConfig \<Rightarrow> env \<Rightarrow> bool" where
  \<comment> \<open>the caller is authenticated and owns the video the request names\<close>
  "owner_request cfg env =
     (case uuid_Parse env (PathValue env) of
        Inl err \<Rightarrow> False
      | Inr videoID \<Rightarrow>
     (case GetBearerToken env of
        Inl err \<Rightarrow> False
      | Inr token \<Rightarrow>
     (case ValidateJWT env token (jwtSecret cfg) of
        Inl err \<Rightarrow> False
      | Inr userID \<Rightarrow>
     (case GetVideo env videoID of
        Inl err \<Rightarrow> False
      | Inr video \<Rightarrow> ID video \<noteq> uuid_Nil \<and> UserID video = userID))))"

definition admitted :: "apiConfig \<Rightarrow> env \<Rightarrow> bool" where
  \<comment> \<open>the request passes the checks of intake: an authenticated owner, a form that parses,
      a file part whose declared content type parses to \<open>video/mp4\<close>\<close>
  "admitted cfg env =
     (owner_request cfg env \<and> ParseMultipartForm env = None \<and>
      (case FormFile env of
         Inl err \<Rightarrow> False
       | Inr (ct, content) \<Rightarrow> ParseMediaType env ct = Inr ''video/mp4''))"

definition remuxed :: "env \<Rightarrow> bool" where
  \<comment> \<open>the staging and the remux succeed: the temporary file is created, copied and
      rewound, the tool exits without error and its output opens\<close>
  "remuxed env =
     (case CreateTemp env of
        Inl err \<Rightarrow> False
      | Inr t \<Rightarrow>
          Copy env = None \<and> Seek env = None \<and>
          (case ffmpeg env t (t @ ''.processing'') of
             Done bs \<Rightarrow> Open env (t @ ''.processing'') = None
           | Failed err msg left \<Rightarrow> False))"

definition steps_succeed :: "apiConfig \<Rightarrow> env \<Rightarrow> bool" where
  \<comment> \<open>every step of the pipeline other than the inspection succeeds, for a configured
      bucket that is not blank and has no comma\<close>
  "steps_succeed cfg env =
     (admitted cfg env \<and> remuxed env \<and> 32 \<le> length (rand_Reader env) \<and>
      (\<forall>input. PutObject env input = None) \<and>
      (\<forall>video. UpdateVideo env video = None) \<and>
      (\<forall>bucket key. \<not> isl (PresignGetObject env bucket key (15 * Minute))) \<and>
      \<not> blank (s3Bucket cfg) \<and> CHR '','' \<notin> set (s3Bucket cfg))"

definition exact_aspect :: "rat \<Rightarrow> string" where
  \<comment> \<open>the class of an exact ratio: within 0.02 of 16/9, else within 0.02 of 9/16, else
      neither, the bounds included\<close>
  "exact_aspect r =
     (if \<bar>r - ratio169\<bar> \<le> tol then ''16:9''
      else if \<bar>r - ratio916\<bar> \<le> tol then ''9:16''
      else ''other'')"

definition geometry :: "env \<Rightarrow> string \<Rightarrow> (int \<times> int) option" where
  \<comment> \<open>the geometry the inspection reports for a file: the first stream with strictly
      positive width and height; none when the tool fails, its output does not parse, or no
      stream has one\<close>
  "geometry env name =
     (case ffprobe env name of
        Inl err \<Rightarrow> None
      | Inr stdout \<Rightarrow>
     (case json_Unmarshal env stdout of
        Inl err \<Rightarrow> None
      | Inr result \<Rightarrow>
     (case find (\<lambda>st. 0 < Width st \<and> 0 < Height st) (Streams result) of
        None \<Rightarrow> None
      | Some st \<Rightarrow> Some (Width st, Height st))))"

definition hex_chars :: "char set" where
  \<comment> \<open>the lower-case hexadecimal digits\<close>
  "hex_chars = set ''0123456789abcdef''"

subsection \<open>The last part of the handler, as a relation\<close>

definition publication ::
  "apiConfig \<Rightarrow> env \<Rightarrow> Video \<Rightarrow> string \<Rightarrow> byte list \<Rightarrow> byte list
     \<Rightarrow> response \<Rightarrow> PutObjectInput list \<Rightarrow> Video list \<Rightarrow> bool" where
  \<comment> \<open>what lines 125 to 166 do once the staged file is remuxed to the bytes \<open>bs\<close> and
      the random bytes \<open>rnd\<close> are read: the calls they add and the response they write\<close>
  "publication cfg env video t bs rnd resp puts updates =
     (let key = s3Key_of (prefix_of (getVideoAspectRatio env t)) rnd;
          input = \<lparr>Bucket = s3Bucket cfg, Key = key, Body = bs, ContentType = ''video/mp4''\<rparr>;
          v = video\<lparr>VideoURL := Some (commaDelimited_of (s3Bucket cfg) key)\<rparr>
      in puts = [input] \<and>
         (case PutObject env input of
            Some err \<Rightarrow>
              updates = [] \<and>
              resp = ErrorResponse StatusInternalServerError ''Failed to upload video to S3''
          | None \<Rightarrow>
              updates = [v] \<and>
              (case UpdateVideo env v of
                 Some err \<Rightarrow>
                   resp = ErrorResponse StatusInternalServerError ''Failed to update video URL''
               | None \<Rightarrow>
                   (case dbVideoToSignedVideo env v of
                      (signedVideo, Some err) \<Rightarrow>
                        resp = ErrorResponse StatusInternalServerError
                                 ''Failed to generate presigned URL''
                    | (signedVideo, None) \<Rightarrow> resp = JSONResponse StatusOK signedVideo))))"


section \<open>Example requests\<close>

definition demo_cfg :: apiConfig where
  "demo_cfg = \<lparr>jwtSecret = ''secret'', s3Bucket = ''tubely-private-53827''\<rparr>"

definition demo_video :: Video where
  "demo_video = \<lparr>ID = 1, UserID = 7, VideoURL = None, ThumbnailURL = None\<rparr>"

definition demo_env :: env where
  "demo_env =
     \<lparr>PathValue = ''00000000-0000-0000-0000-000000000001'',
      uuid_Parse = (\<lambda>s. Inr 1),
      GetBearerToken = Inr ''token'',
      ValidateJWT = (\<lambda>token secret. Inr 7),
      GetVideo = (\<lambda>videoID. Inr demo_video),
      ParseMultipartForm = None,
      ParseMultipartForm_files = [],
      FormFile = Inr (''video/mp4'', [1, 2, 3]),
      ParseMediaType = (\<lambda>ct. Inr ct),
      CreateTemp = Inr ''/tmp/tubely-upload-1.mp4'',
      Copy = None,
      Seek = None,
      ffmpeg = (\<lambda>input output. Done [3, 1, 2]),
      Open = (\<lambda>name. None),
      rand_Reader = replicate 32 0xAB,
      ffprobe = (\<lambda>input. Inr ''{}''),
      json_Unmarshal = (\<lambda>stdout. Inr \<lparr>Streams = [\<lparr>Width = 1920, Height = 1080\<rparr>]\<rparr>),
      PutObject = (\<lambda>input. None),
      UpdateVideo = (\<lambda>video. None),
      PresignGetObject = (\<lambda>bucket key expires. Inr (''https://'' @ bucket @ ''/'' @ key @ ''?sig''))\<rparr>"

definition empty_world :: world where
  "empty_world =
     \<lparr>files = Map.empty, created = [], handles = [], put_calls = [], update_calls = []\<rparr>"

definition no_probe_env :: env where
  "no_probe_env = demo_env\<lparr>ffprobe := (\<lambda>input. Inl (Failure ''exit status 1''))\<rparr>"

definition remux_fail_env :: env where
  "remux_fail_env =
     demo_env\<lparr>ffmpeg := (\<lambda>input output.
       Failed (Failure ''exit status 1'') ''Could not write header for output file'' (Some []))\<rparr>"



definition boundary_env :: env where
  "boundary_env =
     demo_env\<lparr>json_Unmarshal := (\<lambda>stdout. Inr \<lparr>Streams = [\<lparr>Width = 809, Height = 450\<rparr>]\<rparr>)\<rparr>"


section \<open>Properties of the library functions\<close>

lemma SplitN_2:
  "SplitN s sep 2 =
     (if sep \<in> set s
      then [takeWhile (\<lambda>c. c \<noteq> sep) s, tl (dropWhile (\<lambda>c. c \<noteq> sep) s)]
      else [s])"
  by (simp add: numeral_2_eq_2)

lemma SplitN_joined:
  assumes "sep \<notin> set b"
  shows "SplitN (b @ sep # k) sep 2 = [b, k]"
proof -
  have "takeWhile (\<lambda>c. c \<noteq> sep) (b @ sep # k) = b"
    using assms by (induction b) auto
  moreover have "dropWhile (\<lambda>c. c \<noteq> sep) (b @ sep # k) = sep # k"
    using assms by (induction b) auto
  ultimately show ?thesis
    by (simp add: SplitN_2)
qed

lemma SplitN_first_no_sep:
  "SplitN s sep 2 = [x, y] \<Longrightarrow> sep \<notin> set x"
  by (auto simp: SplitN_2 split: if_splits dest: set_takeWhileD)

lemma TrimSpace_trimmed: "trimmed s \<Longrightarrow> TrimSpace s = s"
proof (cases "s = []")
  case True
  then show ?thesis by (simp add: TrimSpace_def)
next
  case False
  assume "trimmed s"
  with False have h: "\<not> isSpace (hd s)" and l: "\<not> isSpace (last s)"
    by (auto simp: trimmed_def)
  have 1: "dropWhile isSpace s = s"
    using h by (simp add: dropWhile_eq_self_iff)
  have 2: "dropWhile isSpace (rev s) = rev s"
    using l False by (simp add: dropWhile_eq_self_iff hd_rev)
  show ?thesis by (simp add: TrimSpace_def 1 2)
qed

lemma dropWhile_all_iff: "(\<forall>x\<in>set (dropWhile P xs). P x) \<longleftrightarrow> dropWhile P xs = []"
proof
  assume a: "\<forall>x\<in>set (dropWhile P xs). P x"
  show "dropWhile P xs = []"
  proof (rule ccontr)
    assume n: "dropWhile P xs \<noteq> []"
    then have "\<not> P (hd (dropWhile P xs))" by (simp add: hd_dropWhile)
    moreover have "hd (dropWhile P xs) \<in> set (dropWhile P xs)" using n by simp
    ultimately show False using a by blast
  qed
qed (auto dest: set_dropWhileD)

lemma TrimSpace_empty_iff: "TrimSpace s = [] \<longleftrightarrow> list_all isSpace s"
  by (simp add: TrimSpace_def dropWhile_eq_Nil_conv dropWhile_all_iff list_all_iff)


lemma dbVideoToSignedVideo_wellformed:
  assumes "VideoURL video = Some url" and "\<not> malformed (Some url)"
  shows "dbVideoToSignedVideo env video =
           (case PresignGetObject env (TrimSpace (location_part url)) (TrimSpace (key_part url))
                   (15 * Minute) of
              Inl err \<Rightarrow> (video, Some err)
            | Inr signedURL \<Rightarrow> (video\<lparr>VideoURL := Some signedURL\<rparr>, None))"
  using assms
  by (simp add: dbVideoToSignedVideo_def malformed_def blank_def location_part_def key_part_def
      SplitN_2 TrimSpace_empty_iff generatePresignedURL_def Let_def split: sum.splits)

lemma dbVideoToSignedVideo_malformed:
  assumes "malformed (VideoURL video)"
  shows "fst (dbVideoToSignedVideo env video) = video"
    and "snd (dbVideoToSignedVideo env video) \<noteq> None"
  using assms
  by (auto simp: dbVideoToSignedVideo_def malformed_def blank_def location_part_def key_part_def
      SplitN_2 TrimSpace_empty_iff Let_def split: option.splits)

lemma takeWhile_joined: "sep \<notin> set b \<Longrightarrow> takeWhile (\<lambda>c. c \<noteq> sep) (b @ sep # k) = b"
  by (induction b) auto

lemma dropWhile_joined: "sep \<notin> set b \<Longrightarrow> dropWhile (\<lambda>c. c \<noteq> sep) (b @ sep # k) = sep # k"
  by (induction b) auto

lemma trimmed_not_blank: "trimmed s \<Longrightarrow> s \<noteq> [] \<Longrightarrow> \<not> blank s"
  by (cases s) (auto simp: trimmed_def blank_def)

lemma joined_wellformed:
  assumes "CHR '','' \<notin> set bucket" and "bucket \<noteq> []" and "key \<noteq> []"
    and "trimmed bucket" and "trimmed key"
  shows "\<not> malformed (Some (bucket @ CHR '','' # key))"
    and "location_part (bucket @ CHR '','' # key) = bucket"
    and "key_part (bucket @ CHR '','' # key) = key"
proof -
  show l: "location_part (bucket @ CHR '','' # key) = bucket"
    using assms(1) by (simp add: location_part_def takeWhile_joined)
  show k: "key_part (bucket @ CHR '','' # key) = key"
    using assms(1) by (simp add: key_part_def dropWhile_joined)
  have "\<not> isSpace (CHR '','')" by (simp add: isSpace_def)
  then have "\<not> blank (bucket @ CHR '','' # key)" by (simp add: blank_def)
  then show "\<not> malformed (Some (bucket @ CHR '','' # key))"
    using assms l k by (simp add: malformed_def trimmed_not_blank)
qed

lemma first_geometry_find:
  "first_geometry ss =
     (case find (\<lambda>st. 0 < Width st \<and> 0 < Height st) ss of
        None \<Rightarrow> (0, 0)
      | Some st \<Rightarrow> (Width st, Height st))"
  by (induction ss) auto

lemma find_positive:
  "find (\<lambda>st. 0 < Width st \<and> 0 < Height st) ss = Some st \<Longrightarrow> 0 < Width st \<and> 0 < Height st \<and> ss \<noteq> []"
  by (auto simp: find_Some_iff)

lemma getVideoAspectRatio_no_geometry:
  "geometry env name = None \<Longrightarrow> isl (getVideoAspectRatio env name)"
  by (auto simp: geometry_def getVideoAspectRatio_def first_geometry_find
      split: sum.splits option.splits)

lemma getVideoAspectRatio_geometry:
  "geometry env name = Some (w, h) \<Longrightarrow> getVideoAspectRatio env name = Inr (aspect_of w h)"
  by (auto simp: geometry_def getVideoAspectRatio_def first_geometry_find
      split: sum.splits option.splits dest: find_positive)

lemma prefix_of_cases: "prefix_of r \<in> {''landscape'', ''portrait'', ''other''}"
  by (simp add: prefix_of_def split: sum.splits)

lemma prefix_of_error: "isl r \<Longrightarrow> prefix_of r = ''other''"
  by (cases r) (simp_all add: prefix_of_def)

lemma hexdigit_range: "n < 16 \<Longrightarrow> hexdigit n \<in> hex_chars"
proof -
  assume "n < 16"
  then have "n < length ''0123456789abcdef''" by simp
  then show ?thesis unfolding hexdigit_def hex_chars_def by (rule nth_mem)
qed

lemma hex_byte_chars: "set (hex_byte b) \<subseteq> hex_chars"
proof -
  have "unat b < 256" using unsigned_less [of b] by simp
  then have "unat b div 16 < 16" by simp
  moreover have "unat b mod 16 < 16" by simp
  ultimately show ?thesis
    by (simp add: hex_byte_def hexdigit_range)
qed

lemma sprintf_x_length: "length (sprintf_x bs) = 2 * length bs"
  by (induction bs) (simp_all add: sprintf_x_def hex_byte_def)

lemma sprintf_x_chars: "set (sprintf_x bs) \<subseteq> hex_chars"
  using hex_byte_chars by (auto simp: sprintf_x_def)

lemma hex_chars_plain: "CHR ''/'' \<notin> hex_chars" "CHR '','' \<notin> hex_chars"
  by (simp_all add: hex_chars_def)

lemma count_list_absent: "x \<notin> set xs \<Longrightarrow> count_list xs x = 0"
  by (induction xs) auto

lemma s3Key_of_shape:
  assumes "prefix \<in> {''landscape'', ''portrait'', ''other''}"
  shows "count_list (s3Key_of prefix rnd) (CHR ''/'') = 1"
    and "CHR '','' \<notin> set (s3Key_of prefix rnd)"
    and "s3Key_of prefix rnd \<noteq> []" and "trimmed (s3Key_of prefix rnd)"
proof -
  have h: "CHR ''/'' \<notin> set (sprintf_x rnd)" "CHR '','' \<notin> set (sprintf_x rnd)"
    using sprintf_x_chars [of rnd] hex_chars_plain by blast+
  show "count_list (s3Key_of prefix rnd) (CHR ''/'') = 1"
    using assms h(1) by (auto simp: s3Key_of_def count_list_absent)
  show "CHR '','' \<notin> set (s3Key_of prefix rnd)"
    using assms h(2) by (auto simp: s3Key_of_def)
  show "s3Key_of prefix rnd \<noteq> []"
    by (simp add: s3Key_of_def)
  show "trimmed (s3Key_of prefix rnd)"
    using assms by (auto simp: s3Key_of_def trimmed_def isSpace_def)
qed

lemma ReadFull_length: "ReadFull r n = Inr rnd \<Longrightarrow> length rnd = n"
  by (auto simp: ReadFull_def split: if_splits)

lemma sign_persisted:
  assumes "\<not> blank bucket" and "CHR '','' \<notin> set bucket"
    and "prefix \<in> {''landscape'', ''portrait'', ''other''}"
  shows "dbVideoToSignedVideo env (video\<lparr>VideoURL := Some (commaDelimited_of bucket (s3Key_of prefix rnd))\<rparr>) =
           (case PresignGetObject env (TrimSpace bucket) (s3Key_of prefix rnd) (15 * Minute) of
              Inl err \<Rightarrow>
                (video\<lparr>VideoURL := Some (commaDelimited_of bucket (s3Key_of prefix rnd))\<rparr>, Some err)
            | Inr signedURL \<Rightarrow> (video\<lparr>VideoURL := Some signedURL\<rparr>, None))"
proof -
  let ?k = "s3Key_of prefix rnd"
  let ?v = "video\<lparr>VideoURL := Some (commaDelimited_of bucket ?k)\<rparr>"
  note k = s3Key_of_shape [OF assms(3), of rnd]
  have u: "VideoURL ?v = Some (bucket @ CHR '','' # ?k)"
    by (simp add: commaDelimited_of_def)
  have l: "location_part (bucket @ CHR '','' # ?k) = bucket"
    and kp: "key_part (bucket @ CHR '','' # ?k) = ?k"
    using assms(2) by (simp_all add: location_part_def key_part_def takeWhile_joined dropWhile_joined)
  have "\<not> isSpace (CHR '','')" by (simp add: isSpace_def)
  then have "\<not> blank (bucket @ CHR '','' # ?k)" by (simp add: blank_def)
  then have n: "\<not> malformed (Some (bucket @ CHR '','' # ?k))"
    using assms(1,2) k(3,4) l kp by (simp add: malformed_def trimmed_not_blank)
  show ?thesis
    by (simp add: dbVideoToSignedVideo_wellformed [OF u n] l kp TrimSpace_trimmed [OF k(4)]
        split: sum.splits)
qed

lemma dbVideoToSignedVideo_result:
  "(\<exists>err. dbVideoToSignedVideo env video = (video, Some err)) \<or>
   (\<exists>bucket key signedURL. PresignGetObject env bucket key (15 * Minute) = Inr signedURL \<and>
      dbVideoToSignedVideo env video = (video\<lparr>VideoURL := Some signedURL\<rparr>, None))"
  by (auto simp: dbVideoToSignedVideo_def generatePresignedURL_def Let_def
      split: option.splits sum.splits)

lemma aspect_1920x1080: "aspect_of 1920 1080 = ''16:9''"
  by code_simp

lemma prefix_1920x1080:
  "geometry env t = Some (1920, 1080) \<Longrightarrow> prefix_of (getVideoAspectRatio env t) = ''landscape''"
  by (simp add: getVideoAspectRatio_geometry aspect_1920x1080 prefix_of_def)


section \<open>Rounding to float64\<close>

text \<open>
  \<open>float64\<close> rounds with a relative error of at most \<open>2^-53\<close> and leaves integers below
  \<open>2^53\<close> as they are. From these two facts alone, the comparison of
  \<open>getVideoAspectRatio\<close> agrees with the comparison of the exact ratio for all widths and
  heights below \<open>2^31\<close> whose ratio is not at exactly 0.02 from 16/9 or 9/16.
\<close>

lemma ilog2_bounds: "0 < n \<Longrightarrow> 2 ^ ilog2 n \<le> n \<and> n < 2 ^ Suc (ilog2 n)"
proof (induction n rule: ilog2.induct)
  case (1 n)
  show ?case
  proof (cases "n < 2")
    case True
    with "1.prems" have "n = 1" by simp
    then show ?thesis by (simp add: ilog2.simps)
  next
    case False
    then have "0 < n div 2" by simp
    with "1.IH" False have ih: "2 ^ ilog2 (n div 2) \<le> n div 2" "n div 2 < 2 ^ Suc (ilog2 (n div 2))"
      by simp_all
    have e: "ilog2 n = Suc (ilog2 (n div 2))"
      using False by (subst ilog2.simps) simp
    from ih show ?thesis unfolding e by simp linarith
  qed
qed

lemma pow2_powi: "pow2 e = 2 powi e"
  by (simp add: pow2_def power_int_def power_one_over inverse_eq_divide)

lemma pow2_pos [simp]: "0 < pow2 e"
  by (simp add: pow2_powi)

lemma pow2_add: "pow2 (a + b) = pow2 a * pow2 b"
  by (simp add: pow2_powi power_int_add)

lemma pow2_Suc: "pow2 (e + 1) = 2 * pow2 e"
  by (simp add: pow2_powi power_int_add)

lemma pow2_nat: "pow2 (int n) = 2 ^ n"
  by (simp add: pow2_def)

lemma pow2_neg_nat: "pow2 (- int n) = 1 / 2 ^ n"
  by (simp add: pow2_powi power_int_minus inverse_eq_divide)

lemma exponent_bounds:
  assumes "0 < a"
  shows "pow2 (exponent a) \<le> a" and "a < pow2 (exponent a + 1)"
proof -
  have "pow2 (exponent a) \<le> a \<and> a < pow2 (exponent a + 1)"
  proof (cases "1 \<le> a")
    case True
    let ?n = "nat \<lfloor>a\<rfloor>"
    have n: "0 < ?n" using True by simp
    have f: "of_nat ?n \<le> a" "a < of_nat ?n + 1"
      using True by (simp_all add: of_nat_nat) linarith+
    note b = ilog2_bounds [OF n]
    have lo: "(2::rat) ^ ilog2 ?n \<le> of_nat ?n"
      using b by (metis of_nat_le_iff of_nat_numeral of_nat_power)
    have hi: "of_nat ?n + 1 \<le> (2::rat) * 2 ^ ilog2 ?n"
    proof -
      from b have "Suc ?n \<le> 2 ^ Suc (ilog2 ?n)" by simp
      then have "of_nat (Suc ?n) \<le> (of_nat (2 ^ Suc (ilog2 ?n)) :: rat)"
        by (simp only: of_nat_le_iff)
      then show ?thesis by simp
    qed
    have "2 ^ ilog2 ?n \<le> a" using lo f(1) by linarith
    moreover have "a < 2 * 2 ^ ilog2 ?n" using hi f(2) by linarith
    moreover have "pow2 (exponent a) = 2 ^ ilog2 ?n"
      using True by (simp add: exponent_def pow2_nat)
    ultimately show ?thesis
      by (simp add: pow2_Suc)
  next
    case False
    let ?b = "1 / a"
    let ?n = "nat (\<lceil>?b\<rceil> - 1)"
    have b1: "1 < ?b" using False assms by simp
    then have c: "2 \<le> \<lceil>?b\<rceil>" by (simp add: le_ceiling_iff)
    then have n: "0 < ?n" by simp
    have f: "of_nat ?n < ?b" "?b \<le> of_nat ?n + 1"
    proof -
      from c have z: "0 \<le> \<lceil>?b\<rceil> - 1" by linarith
      have "of_nat ?n = (of_int (\<lceil>?b\<rceil> - 1) :: rat)"
        by (rule of_nat_nat [OF z])
      then have "of_nat ?n = (of_int \<lceil>?b\<rceil> :: rat) - 1" by simp
      moreover have "of_int \<lceil>?b\<rceil> - 1 < ?b" "?b \<le> of_int \<lceil>?b\<rceil>"
        by linarith+
      ultimately show "of_nat ?n < ?b" "?b \<le> of_nat ?n + 1"
        by linarith+
    qed
    note b = ilog2_bounds [OF n]
    let ?k = "ilog2 ?n"
    have lo: "(2::rat) ^ ?k \<le> of_nat ?n"
      using b by (metis of_nat_le_iff of_nat_numeral of_nat_power)
    have hi: "of_nat ?n + 1 \<le> (2::rat) ^ Suc ?k"
    proof -
      from b have "Suc ?n \<le> 2 ^ Suc ?k" by simp
      then have "of_nat (Suc ?n) \<le> (of_nat (2 ^ Suc ?k) :: rat)"
        by (simp only: of_nat_le_iff)
      then show ?thesis by simp
    qed
    have e: "exponent a = - int (Suc ?k)"
      using False by (simp add: exponent_def)
    have e1: "exponent a + 1 = - int ?k"
      using e by simp
    have "2 ^ ?k < ?b" using lo f(1) by linarith
    then have u: "a < 1 / 2 ^ ?k"
      using assms by (simp add: field_simps)
    have "?b \<le> 2 ^ Suc ?k" using hi f(2) by linarith
    then have l: "1 / 2 ^ Suc ?k \<le> a"
      using assms by (simp add: field_simps)
    show ?thesis
      unfolding e1 unfolding e pow2_neg_nat using u l by simp
  qed
  then show "pow2 (exponent a) \<le> a" and "a < pow2 (exponent a + 1)" by simp_all
qed

lemma rne_error: "\<bar>of_int (rne x) - x\<bar> \<le> 1 / 2"
proof -
  have "of_int \<lfloor>x\<rfloor> \<le> x" "x < of_int \<lfloor>x\<rfloor> + 1" by linarith+
  then show ?thesis
    by (auto simp: rne_def Let_def)
qed

lemma rne_of_int [simp]: "rne (of_int k) = k"
  by (simp add: rne_def)

lemma pow2_nonzero [simp]: "pow2 e \<noteq> 0"
  using pow2_pos [of e] by linarith

lemma pow2_nonneg [simp]: "0 \<le> pow2 e"
  using pow2_pos [of e] by linarith

lemma pow2_abs [simp]: "\<bar>pow2 e\<bar> = pow2 e"
  using pow2_pos [of e] by linarith

lemma float64_error: "\<bar>float64 x - x\<bar> \<le> \<bar>x\<bar> / 2 ^ 53"
proof (cases "x = 0")
  case True
  then show ?thesis by (simp add: float64_def)
next
  case False
  let ?a = "\<bar>x\<bar>"
  let ?e = "exponent ?a - 52"
  let ?m = "rne (?a / pow2 ?e)"
  have a: "0 < ?a" using False by simp
  have f: "float64 x = sgn x * of_int ?m * pow2 ?e"
    using False by (simp add: float64_def Let_def)
  have x: "x = sgn x * ?a" by (simp add: abs_sgn mult.commute)
  have "float64 x - x = sgn x * (of_int ?m * pow2 ?e - ?a)"
    by (subst (2) x) (simp add: f algebra_simps)
  then have "\<bar>float64 x - x\<bar> = \<bar>of_int ?m * pow2 ?e - ?a\<bar>"
    using False by (simp add: abs_mult)
  also have "of_int ?m * pow2 ?e - ?a = pow2 ?e * (of_int ?m - ?a / pow2 ?e)"
    by (simp add: field_simps)
  also have "\<bar>pow2 ?e * (of_int ?m - ?a / pow2 ?e)\<bar> = pow2 ?e * \<bar>of_int ?m - ?a / pow2 ?e\<bar>"
    by (simp add: abs_mult)
  also have "\<dots> \<le> pow2 ?e * (1 / 2)"
    by (rule mult_left_mono [OF rne_error]) simp
  also have "pow2 ?e = pow2 (exponent ?a) / 2 ^ 52"
    using pow2_add [of "exponent ?a" "- 52"] by (simp add: pow2_def)
  also have "pow2 (exponent ?a) / 2 ^ 52 * (1 / 2) \<le> ?a / 2 ^ 52 * (1 / 2)"
    using exponent_bounds(1) [OF a] by (simp add: divide_right_mono)
  finally show ?thesis by simp
qed

lemma pow2_mono: "a \<le> b \<Longrightarrow> pow2 a \<le> pow2 b"
  by (simp add: pow2_powi power_int_increasing)

lemma float64_of_int_exact:
  assumes "\<bar>w\<bar> < 2 ^ 53"
  shows "float64 (of_int w) = of_int w"
proof (cases "w = 0")
  case True
  then show ?thesis by (simp add: float64_def)
next
  case False
  let ?a = "\<bar>rat_of_int w\<bar>"
  let ?e = "exponent ?a - 52"
  have a: "0 < ?a" using False by simp
  have "?a < 2 ^ 53"
  proof -
    have "rat_of_int \<bar>w\<bar> < rat_of_int (2 ^ 53)"
      using assms by (simp only: of_int_less_iff)
    then show ?thesis by simp
  qed
  with exponent_bounds(1) [OF a] have "pow2 (exponent ?a) < pow2 53"
    by (simp add: pow2_def)
  then have "exponent ?a < 53"
    using pow2_mono [of 53 "exponent ?a"] by (cases "53 \<le> exponent ?a") auto
  then have e: "?e \<le> 0" by simp
  then obtain k where k: "?e = - int k"
    by (metis nonpos_int_cases)
  have "?a / pow2 ?e = of_int (\<bar>w\<bar> * 2 ^ k)"
    by (simp add: k pow2_neg_nat)
  then have "rne (?a / pow2 ?e) = \<bar>w\<bar> * 2 ^ k"
    by (simp only: rne_of_int)
  then have "float64 (of_int w) = sgn (of_int w) * of_int (\<bar>w\<bar> * 2 ^ k) * pow2 (- int k)"
    using False by (simp add: float64_def Let_def k)
  also have "\<dots> = sgn (rat_of_int w) * \<bar>rat_of_int w\<bar>"
    by (simp add: pow2_neg_nat)
  also have "\<dots> = of_int w"
    by (simp add: abs_sgn mult.commute)
  finally show ?thesis .
qed

lemma compare_robust:
  fixes r R c C T t D :: rat
  assumes r: "0 < r" and R: "\<bar>R - r\<bar> \<le> r / 9007199254740992"
    and c: "\<bar>c - C\<bar> \<le> C / 9007199254740992" and T: "\<bar>T - t\<bar> \<le> t / 9007199254740992"
    and D: "\<bar>D - (R - c)\<bar> \<le> \<bar>R - c\<bar> / 9007199254740992"
    and C: "0 < C" "C \<le> 2" and t: "0 < t" "t \<le> 1"
    and g: "1 / 35184372088832 \<le> \<bar>\<bar>r - C\<bar> - t\<bar>"
  shows "(\<bar>D\<bar> \<le> T) = (\<bar>r - C\<bar> \<le> t)"
proof -
  define v where "v = R - c"
  define u where "u = \<bar>v\<bar>"
  have u: "\<bar>D - v\<bar> \<le> u / 9007199254740992"
    using D by (simp add: u_def v_def)
  have c': "C - 2 / 9007199254740992 \<le> c" "c \<le> C + 2 / 9007199254740992"
    using c C by linarith+
  have T': "t - 1 / 9007199254740992 \<le> T" "T \<le> t + 1 / 9007199254740992"
    using T t by linarith+
  show ?thesis
  proof (cases "\<bar>r - C\<bar> \<le> t")
    case True
    with g have i: "\<bar>r - C\<bar> \<le> t - 1 / 35184372088832" by linarith
    then have "r \<le> 3" using C t by linarith
    with R have 1: "\<bar>R - r\<bar> \<le> 3 / 9007199254740992" by linarith
    from 1 c' i have 3: "\<bar>v\<bar> \<le> t - 1 / 35184372088832 + 5 / 9007199254740992"
      unfolding v_def by linarith
    with t have "u \<le> 2" unfolding u_def by linarith
    with u have 4: "\<bar>D - v\<bar> \<le> 2 / 9007199254740992" by linarith
    from 3 4 T' have "\<bar>D\<bar> \<le> T" by linarith
    with True show ?thesis by simp
  next
    case False
    with g have o: "t + 1 / 35184372088832 \<le> \<bar>r - C\<bar>" by linarith
    have "T < \<bar>D\<bar>"
    proof (cases "C \<le> r")
      case True
      with o have a: "C + t + 1 / 35184372088832 \<le> r" by linarith
      from R r have "r - r / 9007199254740992 \<le> R" by linarith
      with c' have b: "r - r / 9007199254740992 - C - 2 / 9007199254740992 \<le> v"
        unfolding v_def by linarith
      have d: "t + 1 / 35184372088832 - 6 / 9007199254740992 \<le> v"
        using a b C t by linarith
      then have p: "0 < v" using t by linarith
      then have "u = v" by (simp add: u_def)
      with u have "v - v / 9007199254740992 \<le> D" by linarith
      with d t have "t + 1 / 35184372088832 - 8 / 9007199254740992 \<le> D" by linarith
      with T' show ?thesis by linarith
    next
      case False
      with o have a: "r \<le> C - t - 1 / 35184372088832" by linarith
      with C have r2: "r \<le> 2" using t by linarith
      from R r2 have "R \<le> r + 2 / 9007199254740992" by linarith
      with c' a have d: "t + 1 / 35184372088832 - 4 / 9007199254740992 \<le> - v"
        unfolding v_def by linarith
      then have p: "v < 0" using t by linarith
      have "- v \<le> 3"
        using R r c' C unfolding v_def by linarith
      with p have "u \<le> 3" by (simp add: u_def)
      with u have "- v - 3 / 9007199254740992 \<le> - D" by linarith
      with d have "t + 1 / 35184372088832 - 7 / 9007199254740992 \<le> - D" by linarith
      with T' show ?thesis by linarith
    qed
    with False show ?thesis by simp
  qed
qed

lemma ratio_gap:
  fixes w h p q :: int
  assumes h: "0 < h" and q: "0 < q"
    and ne: "\<bar>rat_of_int w / of_int h - of_int p / of_int q\<bar> \<noteq> 1 / 50"
  shows "1 / (50 * of_int q * of_int h) \<le>
           \<bar>\<bar>rat_of_int w / of_int h - of_int p / of_int q\<bar> - 1 / 50\<bar>"
proof -
  let ?n = "50 * \<bar>q * w - p * h\<bar> - q * h"
  have hq: "0 < rat_of_int h" "0 < rat_of_int q" using h q by simp_all
  have "rat_of_int w / of_int h - of_int p / of_int q = of_int (q * w - p * h) / (of_int q * of_int h)"
    using hq by (simp add: field_simps)
  then have a: "\<bar>rat_of_int w / of_int h - of_int p / of_int q\<bar> =
      of_int \<bar>q * w - p * h\<bar> / (of_int q * of_int h)"
    using hq by (simp add: abs_mult)
  have e: "\<bar>rat_of_int w / of_int h - of_int p / of_int q\<bar> - 1 / 50 =
      of_int ?n / (50 * of_int q * of_int h)"
    unfolding a using hq by (simp add: field_simps)
  have "?n \<noteq> 0"
  proof
    assume "?n = 0"
    then have "rat_of_int ?n = 0" by simp
    with e ne show False by simp
  qed
  then have "1 \<le> \<bar>?n\<bar>" by linarith
  then have "1 \<le> rat_of_int \<bar>?n\<bar>" by (simp only: of_int_1_le_iff)
  then have "1 / (50 * of_int q * of_int h) \<le> of_int \<bar>?n\<bar> / (50 * rat_of_int q * of_int h)"
    using hq by (intro divide_right_mono) simp_all
  also have "\<dots> = \<bar>of_int ?n / (50 * rat_of_int q * of_int h)\<bar>"
    using hq by (simp add: abs_mult)
  finally show ?thesis unfolding e .
qed

lemma gap_bound:
  fixes h q :: int
  assumes "0 < h" "h < 2 ^ 31" "0 < q" "q \<le> 16"
  shows "(1 :: rat) / 35184372088832 \<le> 1 / (50 * of_int q * of_int h)"
proof -
  have "q * h \<le> 16 * 2 ^ 31"
    using assms by (intro mult_mono) simp_all
  then have "rat_of_int (q * h) \<le> rat_of_int (16 * 2 ^ 31)"
    by (simp only: of_int_le_iff)
  then have "rat_of_int q * of_int h \<le> 34359738368" by simp
  then have "50 * (rat_of_int q * of_int h) \<le> 35184372088832" by linarith
  moreover have "0 < 50 * (rat_of_int q * of_int h)" using assms by simp
  ultimately have "(1 :: rat) / 35184372088832 \<le> 1 / (50 * (of_int q * of_int h))"
    by (intro divide_left_mono) simp_all
  then show ?thesis by (simp add: mult.assoc)
qed

lemma aspect_of_off_boundary:
  assumes w: "0 < w" "w < 2 ^ 31" and h: "0 < h" "h < 2 ^ 31"
    and n1: "\<bar>rat_of_int w / of_int h - ratio169\<bar> \<noteq> tol"
    and n2: "\<bar>rat_of_int w / of_int h - ratio916\<bar> \<noteq> tol"
  shows "aspect_of w h = exact_aspect (of_int w / of_int h)"
proof -
  let ?r = "rat_of_int w / of_int h"
  let ?R = "float64 ?r"
  have fw: "float64 (of_int w) = of_int w" "float64 (of_int h) = of_int h"
    using w h by (simp_all add: float64_of_int_exact)
  have r: "0 < ?r" using w h by simp
  have R: "\<bar>?R - ?r\<bar> \<le> ?r / 9007199254740992"
    using float64_error [of ?r] r by simp
  have T: "\<bar>float64 tol - 1 / 50\<bar> \<le> (1 / 50) / 9007199254740992"
    using float64_error [of tol] by (simp add: tol_def)
  have c1: "\<bar>float64 ratio169 - 16 / 9\<bar> \<le> (16 / 9) / 9007199254740992"
    using float64_error [of ratio169] by (simp add: ratio169_def)
  have c2: "\<bar>float64 ratio916 - 9 / 16\<bar> \<le> (9 / 16) / 9007199254740992"
    using float64_error [of ratio916] by (simp add: ratio916_def)
  have D1: "\<bar>float64 (?R - float64 ratio169) - (?R - float64 ratio169)\<bar>
      \<le> \<bar>?R - float64 ratio169\<bar> / 9007199254740992"
    using float64_error [of "?R - float64 ratio169"] by simp
  have D2: "\<bar>float64 (?R - float64 ratio916) - (?R - float64 ratio916)\<bar>
      \<le> \<bar>?R - float64 ratio916\<bar> / 9007199254740992"
    using float64_error [of "?R - float64 ratio916"] by simp
  have g1: "1 / 35184372088832 \<le> \<bar>\<bar>?r - 16 / 9\<bar> - 1 / 50\<bar>"
  proof -
    have n: "\<bar>?r - rat_of_int 16 / rat_of_int 9\<bar> \<noteq> 1 / 50"
      using n1 by (simp add: ratio169_def tol_def)
    have "(1 :: rat) / 35184372088832 \<le> 1 / (50 * rat_of_int 9 * of_int h)"
      by (rule gap_bound [OF h]) simp_all
    also have "\<dots> \<le> \<bar>\<bar>?r - rat_of_int 16 / rat_of_int 9\<bar> - 1 / 50\<bar>"
      by (rule ratio_gap [OF h(1) _ n]) simp
    finally show ?thesis by simp
  qed
  have g2: "1 / 35184372088832 \<le> \<bar>\<bar>?r - 9 / 16\<bar> - 1 / 50\<bar>"
  proof -
    have n: "\<bar>?r - rat_of_int 9 / rat_of_int 16\<bar> \<noteq> 1 / 50"
      using n2 by (simp add: ratio916_def tol_def)
    have "(1 :: rat) / 35184372088832 \<le> 1 / (50 * rat_of_int 16 * of_int h)"
      by (rule gap_bound [OF h]) simp_all
    also have "\<dots> \<le> \<bar>\<bar>?r - rat_of_int 9 / rat_of_int 16\<bar> - 1 / 50\<bar>"
      by (rule ratio_gap [OF h(1) _ n]) simp
    finally show ?thesis by simp
  qed
  have 1: "(\<bar>float64 (?R - float64 ratio169)\<bar> \<le> float64 tol) = (\<bar>?r - 16 / 9\<bar> \<le> 1 / 50)"
    by (rule compare_robust [OF r R c1 T D1 _ _ _ _ g1]) simp_all
  have 2: "(\<bar>float64 (?R - float64 ratio916)\<bar> \<le> float64 tol) = (\<bar>?r - 9 / 16\<bar> \<le> 1 / 50)"
    by (rule compare_robust [OF r R c2 T D2 _ _ _ _ g2]) simp_all
  show ?thesis
    unfolding aspect_of_def exact_aspect_def Let_def fw 1 2
    by (simp add: ratio169_def ratio916_def tol_def)
qed

section \<open>The three parts of the handler\<close>

lemma run_deferred_frame [simp]:
  "put_calls (run_deferred ds s) = put_calls s"
  "update_calls (run_deferred ds s) = update_calls s"
  "created (run_deferred ds s) = created s"
  by (induction ds s rule: run_deferred.induct) (simp_all add: os_Remove_def)

lemma run_deferred_files:
  "files (run_deferred ds s) name = (if Remove name \<in> set ds then None else files s name)"
  by (induction ds s rule: run_deferred.induct) (auto simp: os_Remove_def)

lemma spill_frame [simp]:
  "put_calls (spill fs s) = put_calls s"
  "update_calls (spill fs s) = update_calls s"
  "handles (spill fs s) = handles s"
  "created (spill fs s) = created s @ map fst fs"
  by (induction fs s rule: spill.induct) (simp_all add: write_file_def)

lemma intake_frame:
  assumes "intake cfg env s = (r, s1, ds)"
  shows "run_deferred ds s1 = s \<or> run_deferred ds s1 = spill (ParseMultipartForm_files env) s"
    and "created s1 = created s \<or>
         created s1 = created s @ map fst (ParseMultipartForm_files env)"
    and "put_calls s1 = put_calls s" and "update_calls s1 = update_calls s"
    and "\<And>name. Remove name \<notin> set ds"
  using assms
  by (auto simp: intake_def Let_def split: sum.splits option.splits if_splits prod.splits)

lemma intake_rejects:
  assumes "intake cfg env s = (Inl resp, s1, ds)"
  shows "status resp \<in> {StatusBadRequest, StatusUnauthorized, StatusNotFound,
           StatusInternalServerError}"
  using assms
  by (auto simp: intake_def Let_def respondWithError_def
      split: sum.splits option.splits if_splits prod.splits)

lemma intake_accepts:
  assumes "intake cfg env s = (Inr (video, mediaType, content), s1, ds)"
  shows "mediaType = ''video/mp4''"
    and "\<exists>ct. FormFile env = Inr (ct, content) \<and> ParseMediaType env ct = Inr ''video/mp4''"
    and "owner_request cfg env" and "ParseMultipartForm env = None"
    and "\<exists>videoID. uuid_Parse env (PathValue env) = Inr videoID \<and> GetVideo env videoID = Inr video"
  using assms
  by (auto simp: intake_def Let_def owner_request_def
      split: sum.splits option.splits if_splits prod.splits)


lemma stage_frame:
  assumes "stage env content ds s = (r, s2, ds2)"
  shows "put_calls s2 = put_calls s" and "update_calls s2 = update_calls s"
  using assms
  by (auto simp: stage_def processVideoForFastStart_def os_Open_def write_file_def Let_def
      split: sum.splits option.splits prod.splits ffmpeg_run.splits)

lemma stage_fails:
  assumes "stage env content ds s = (Inl resp, s2, ds2)"
  shows "status resp = StatusInternalServerError"
  using assms
  by (auto simp: stage_def processVideoForFastStart_def os_Open_def write_file_def Let_def
      respondWithError_def
      split: sum.splits option.splits prod.splits ffmpeg_run.splits)

lemma stage_succeeds:
  assumes "stage env content ds s = (Inr (t, p), s2, ds2)"
  shows "CreateTemp env = Inr t" and "p = t @ ''.processing''"
    and "Copy env = None" and "Seek env = None" and "Open env p = None"
    and "\<exists>bs. ffmpeg env t p = Done bs \<and> read_all s2 p = bs"
    and "created s2 = created s @ [t, p]"
    and "ds2 = Close (File p) # Remove p # Close (File t) # Remove t # ds"
  using assms
  by (auto simp: stage_def processVideoForFastStart_def os_Open_def write_file_def read_all_def
      Let_def
      split: sum.splits option.splits prod.splits ffmpeg_run.splits)

lemma stage_remux_failed:
  assumes "CreateTemp env = Inr t" and "ffmpeg env t (t @ ''.processing'') = Failed e m l"
  shows "\<exists>resp. fst (stage env content ds s) = Inl resp \<and>
           (Copy env = None \<and> Seek env = None \<longrightarrow>
              resp = ErrorResponse StatusInternalServerError
                       ''Failed to process video for fast start'')"
  using assms
  by (auto simp: stage_def processVideoForFastStart_def Let_def respondWithError_def
      split: sum.splits option.splits prod.splits)

lemma publish_frame:
  assumes "publish cfg env video mediaType t p s = (resp, s')"
  shows "files s' = files s" and "created s' = created s" and "handles s' = handles s"
  using assms
  by (auto simp: publish_def Let_def split: sum.splits option.splits prod.splits)

lemma handler_cases [case_names rejected unstaged published]:
  obtains
    (rejected) resp s1 ds1 where
      "intake cfg env s = (Inl resp, s1, ds1)"
      "handlerUploadVideo cfg env s = (resp, run_deferred ds1 s1)"
  | (unstaged) video content s1 ds1 resp s2 ds2 where
      "intake cfg env s = (Inr (video, ''video/mp4'', content), s1, ds1)"
      "stage env content ds1 s1 = (Inl resp, s2, ds2)"
      "handlerUploadVideo cfg env s = (resp, run_deferred ds2 s2)"
  | (published) video content s1 ds1 t p s2 ds2 resp s3 where
      "intake cfg env s = (Inr (video, ''video/mp4'', content), s1, ds1)"
      "stage env content ds1 s1 = (Inr (t, p), s2, ds2)"
      "publish cfg env video ''video/mp4'' t p s2 = (resp, s3)"
      "handlerUploadVideo cfg env s = (resp, run_deferred ds2 s3)"
proof -
  obtain r s1 ds1 where i: "intake cfg env s = (r, s1, ds1)"
    by (cases "intake cfg env s") auto
  show thesis
  proof (cases r)
    case (Inl resp)
    with i have "handlerUploadVideo cfg env s = (resp, run_deferred ds1 s1)"
      by (simp add: handlerUploadVideo_def handlerUploadVideo_body_def)
    with i Inl show thesis by (auto intro: rejected)
  next
    case (Inr a)
    obtain video mediaType content where a: "a = (video, mediaType, content)"
      by (cases a) auto
    with i Inr have m: "mediaType = ''video/mp4''"
      by (auto dest: intake_accepts(1))
    obtain r2 s2 ds2 where st: "stage env content ds1 s1 = (r2, s2, ds2)"
      by (cases "stage env content ds1 s1") auto
    show thesis
    proof (cases r2)
      case (Inl resp)
      with i Inr a m st show thesis
        by (auto intro!: unstaged simp: handlerUploadVideo_def handlerUploadVideo_body_def)
    next
      case (Inr b)
      obtain t p where b: "b = (t, p)" by (cases b) auto
      obtain resp s3 where pu: "publish cfg env video ''video/mp4'' t p s2 = (resp, s3)"
        by (cases "publish cfg env video ''video/mp4'' t p s2") auto
      from i \<open>r = Inr a\<close> a m st Inr b pu show thesis
        by (auto intro!: published simp: handlerUploadVideo_def handlerUploadVideo_body_def)
    qed
  qed
qed

lemma publish_calls:
  assumes "publish cfg env video ''video/mp4'' t p s = (resp, s')"
  shows "(isl (ReadFull (rand_Reader env) 32) \<and> put_calls s' = put_calls s \<and>
            update_calls s' = update_calls s \<and>
            resp = ErrorResponse StatusInternalServerError ''Failed to generate random filename'') \<or>
         (\<exists>rnd puts updates. ReadFull (rand_Reader env) 32 = Inr rnd \<and>
            put_calls s' = put_calls s @ puts \<and> update_calls s' = update_calls s @ updates \<and>
            publication cfg env video t (read_all s p) rnd resp puts updates)"
  using assms
  by (auto simp: publish_def publication_def Let_def respondWithError_def respondWithJSON_def
      split: sum.splits option.splits prod.splits)

lemma stage_reaches:
  assumes "CreateTemp env = Inr t" and "Copy env = None" and "Seek env = None"
    and "ffmpeg env t (t @ ''.processing'') = Done bs" and "Open env (t @ ''.processing'') = None"
  shows "\<exists>s2 ds2. stage env content ds s = (Inr (t, t @ ''.processing''), s2, ds2)"
  using assms
  by (simp add: stage_def processVideoForFastStart_def os_Open_def write_file_def Let_def)

lemma handler_calls:
  obtains
    (silent) resp s' where
      "handlerUploadVideo cfg env s = (resp, s')"
      "put_calls s' = put_calls s" "update_calls s' = update_calls s" "status resp \<noteq> StatusOK"
  | (uploaded) resp s' video content t bs rnd puts updates s1 ds1 where
      "handlerUploadVideo cfg env s = (resp, s')"
      "intake cfg env s = (Inr (video, ''video/mp4'', content), s1, ds1)"
      "CreateTemp env = Inr t" "Copy env = None" "Seek env = None"
      "ffmpeg env t (t @ ''.processing'') = Done bs" "Open env (t @ ''.processing'') = None"
      "ReadFull (rand_Reader env) 32 = Inr rnd"
      "put_calls s' = put_calls s @ puts" "update_calls s' = update_calls s @ updates"
      "publication cfg env video t bs rnd resp puts updates"
proof (cases cfg env s rule: handler_cases)
  case (rejected resp s1 ds1)
  have "put_calls (run_deferred ds1 s1) = put_calls s"
    and "update_calls (run_deferred ds1 s1) = update_calls s"
    by (simp_all add: intake_frame(3,4) [OF rejected(1)])
  moreover have "status resp \<noteq> StatusOK"
    using intake_rejects [OF rejected(1)] by auto
  ultimately show thesis
    using rejected(2) by (blast intro: silent)
next
  case (unstaged video content s1 ds1 resp s2 ds2)
  have "put_calls (run_deferred ds2 s2) = put_calls s"
    and "update_calls (run_deferred ds2 s2) = update_calls s"
    by (simp_all add: stage_frame [OF unstaged(2)] intake_frame(3,4) [OF unstaged(1)])
  moreover have "status resp \<noteq> StatusOK"
    using stage_fails [OF unstaged(2)] by simp
  ultimately show thesis
    using unstaged(3) by (blast intro: silent)
next
  case (published video content s1 ds1 t p s2 ds2 resp s3)
  note st = stage_succeeds [OF published(2)]
  have f: "put_calls s2 = put_calls s" "update_calls s2 = update_calls s"
    by (simp_all add: stage_frame [OF published(2)] intake_frame(3,4) [OF published(1)])
  obtain bs where bs: "ffmpeg env t (t @ ''.processing'') = Done bs" "read_all s2 p = bs"
    using st(2,6) by auto
  from publish_calls [OF published(3)] show thesis
  proof (elim disjE conjE exE)
    assume "put_calls s3 = put_calls s2" "update_calls s3 = update_calls s2"
      "resp = ErrorResponse StatusInternalServerError ''Failed to generate random filename''"
    then have "put_calls (run_deferred ds2 s3) = put_calls s"
      and "update_calls (run_deferred ds2 s3) = update_calls s"
      and "status resp \<noteq> StatusOK"
      by (simp_all add: f)
    with published(4) show thesis by (blast intro: silent)
  next
    fix rnd puts updates
    assume r: "ReadFull (rand_Reader env) 32 = Inr rnd"
      and "put_calls s3 = put_calls s2 @ puts" "update_calls s3 = update_calls s2 @ updates"
      and pb: "publication cfg env video t (read_all s2 p) rnd resp puts updates"
    then have c: "put_calls (run_deferred ds2 s3) = put_calls s @ puts"
      "update_calls (run_deferred ds2 s3) = update_calls s @ updates"
      by (simp_all add: f)
    have o: "Open env (t @ ''.processing'') = None"
      using st(2,5) by simp
    show thesis
      using published(4,1) st(1,3,4) bs(1) o r c pb [unfolded bs(2)]
      by (blast intro: uploaded)
  qed
qed

lemma intake_admits:
  assumes "admitted cfg env"
  shows "\<exists>video content s1 ds1. intake cfg env s = (Inr (video, ''video/mp4'', content), s1, ds1)"
  using assms
  by (auto simp: admitted_def owner_request_def intake_def Let_def
      split: sum.splits option.splits prod.splits)

lemma handler_succeeds:
  assumes "steps_succeed cfg env"
  shows "\<exists>video s' puts updates t bs rnd signedURL.
           handlerUploadVideo cfg env s = (JSONResponse StatusOK (video\<lparr>VideoURL := Some signedURL\<rparr>), s') \<and>
           CreateTemp env = Inr t \<and> ffmpeg env t (t @ ''.processing'') = Done bs \<and>
           ReadFull (rand_Reader env) 32 = Inr rnd \<and>
           put_calls s' = put_calls s @ puts \<and> update_calls s' = update_calls s @ updates \<and>
           publication cfg env video t bs rnd (JSONResponse StatusOK (video\<lparr>VideoURL := Some signedURL\<rparr>))
             puts updates"
proof -
  from assms have a: "admitted cfg env" and r: "remuxed env"
    and rd: "32 \<le> length (rand_Reader env)"
    and po: "\<And>input. PutObject env input = None" and uv: "\<And>video. UpdateVideo env video = None"
    and ps: "\<And>bucket key. \<not> isl (PresignGetObject env bucket key (15 * Minute))"
    and b: "\<not> blank (s3Bucket cfg)" "CHR '','' \<notin> set (s3Bucket cfg)"
    by (auto simp: steps_succeed_def)
  from r obtain t bs where t: "CreateTemp env = Inr t" "Copy env = None" "Seek env = None"
    "ffmpeg env t (t @ ''.processing'') = Done bs" "Open env (t @ ''.processing'') = None"
    by (auto simp: remuxed_def split: sum.splits ffmpeg_run.splits)
  from rd obtain rnd where rnd: "ReadFull (rand_Reader env) 32 = Inr rnd"
    by (auto simp: ReadFull_def)
  show ?thesis
  proof (cases cfg env s rule: handler_calls)
    case (silent resp s')
    from intake_admits [OF a, of s] obtain video content s1 ds1
      where i: "intake cfg env s = (Inr (video, ''video/mp4'', content), s1, ds1)" by blast
    from stage_reaches [OF t, of content ds1 s1] obtain s2 ds2
      where st: "stage env content ds1 s1 = (Inr (t, t @ ''.processing''), s2, ds2)" by blast
    obtain resp2 s3 where pu: "publish cfg env video ''video/mp4'' t (t @ ''.processing'') s2 = (resp2, s3)"
      by (cases "publish cfg env video ''video/mp4'' t (t @ ''.processing'') s2") auto
    have h: "handlerUploadVideo cfg env s = (resp2, run_deferred ds2 s3)"
      by (simp add: handlerUploadVideo_def handlerUploadVideo_body_def i st pu)
    have "put_calls s3 \<noteq> put_calls s2"
      using pu rnd by (auto simp: publish_def Let_def split: option.splits prod.splits)
    moreover have "put_calls s2 = put_calls s"
      by (simp add: stage_frame [OF st] intake_frame(3) [OF i])
    ultimately have False
      using silent(1,2) h by auto
    then show ?thesis ..
  next
    case (uploaded resp s' video content t' bs' rnd' puts updates s1 ds1)
    from uploaded t rnd have e: "t' = t" "bs' = bs" "rnd' = rnd" by auto
    let ?key = "s3Key_of (prefix_of (getVideoAspectRatio env t)) rnd"
    let ?v = "video\<lparr>VideoURL := Some (commaDelimited_of (s3Bucket cfg) ?key)\<rparr>"
    obtain signedURL where
      sg: "PresignGetObject env (TrimSpace (s3Bucket cfg)) ?key (15 * Minute) = Inr signedURL"
      using ps [of "TrimSpace (s3Bucket cfg)" ?key]
      by (cases "PresignGetObject env (TrimSpace (s3Bucket cfg)) ?key (15 * Minute)") auto
    have d: "dbVideoToSignedVideo env ?v = (video\<lparr>VideoURL := Some signedURL\<rparr>, None)"
      by (simp add: sign_persisted [OF b prefix_of_cases] sg)
    have "resp = JSONResponse StatusOK (video\<lparr>VideoURL := Some signedURL\<rparr>)"
      using uploaded(11) by (simp add: publication_def Let_def e po uv d)
    with uploaded e show ?thesis by blast
  qed
qed

lemma publication_calls:
  assumes "publication cfg env video t bs rnd resp puts updates"
  shows "puts = [\<lparr>Bucket = s3Bucket cfg,
                   Key = s3Key_of (prefix_of (getVideoAspectRatio env t)) rnd,
                   Body = bs, ContentType = ''video/mp4''\<rparr>]"
    and "updates = [] \<or>
         updates = [video\<lparr>VideoURL := Some (commaDelimited_of (s3Bucket cfg)
                      (s3Key_of (prefix_of (getVideoAspectRatio env t)) rnd))\<rparr>]"
    and "status resp = StatusOK \<Longrightarrow>
         updates = [video\<lparr>VideoURL := Some (commaDelimited_of (s3Bucket cfg)
                      (s3Key_of (prefix_of (getVideoAspectRatio env t)) rnd))\<rparr>] \<and>
         (\<exists>bucket key signedURL. PresignGetObject env bucket key (15 * Minute) = Inr signedURL \<and>
            resp = JSONResponse StatusOK (video\<lparr>VideoURL := Some signedURL\<rparr>))"
proof -
  let ?v = "video\<lparr>VideoURL := Some (commaDelimited_of (s3Bucket cfg)
              (s3Key_of (prefix_of (getVideoAspectRatio env t)) rnd))\<rparr>"
  show "puts = [\<lparr>Bucket = s3Bucket cfg,
                   Key = s3Key_of (prefix_of (getVideoAspectRatio env t)) rnd,
                   Body = bs, ContentType = ''video/mp4''\<rparr>]"
    using assms by (simp add: publication_def Let_def)
  show "updates = [] \<or> updates = [?v]"
    using assms by (auto simp: publication_def Let_def split: option.splits)
  assume "status resp = StatusOK"
  then show "updates = [?v] \<and>
         (\<exists>bucket key signedURL. PresignGetObject env bucket key (15 * Minute) = Inr signedURL \<and>
            resp = JSONResponse StatusOK (video\<lparr>VideoURL := Some signedURL\<rparr>))"
    using assms dbVideoToSignedVideo_result [of env ?v]
    by (auto simp: publication_def Let_def split: option.splits prod.splits)
qed

lemma handler_succeeds_calls:
  assumes "steps_succeed cfg env"
  shows "status (fst (handlerUploadVideo cfg env s)) = StatusOK"
    and "put_calls (snd (handlerUploadVideo cfg env s)) \<noteq> put_calls s"
    and "update_calls (snd (handlerUploadVideo cfg env s)) \<noteq> update_calls s"
proof -
  from handler_succeeds [OF assms, of s] obtain video s' puts updates t bs rnd signedURL
    where h: "handlerUploadVideo cfg env s =
        (JSONResponse StatusOK (video\<lparr>VideoURL := Some signedURL\<rparr>), s')"
      and p: "put_calls s' = put_calls s @ puts" "update_calls s' = update_calls s @ updates"
      and pb: "publication cfg env video t bs rnd
        (JSONResponse StatusOK (video\<lparr>VideoURL := Some signedURL\<rparr>)) puts updates"
    by blast
  show "status (fst (handlerUploadVideo cfg env s)) = StatusOK" by (simp add: h)
  show "put_calls (snd (handlerUploadVideo cfg env s)) \<noteq> put_calls s"
    using publication_calls(1) [OF pb] p by (simp add: h)
  show "update_calls (snd (handlerUploadVideo cfg env s)) \<noteq> update_calls s"
    using publication_calls(3) [OF pb] p by (simp add: h)
qed

lemma stage_cleanup:
  assumes "stage env content ds s = (r, s2, ds2)"
  shows "\<exists>cs. created s2 = created s @ cs \<and>
           (\<forall>name. name \<in> set cs \<longrightarrow>
              Remove name \<in> set ds2 \<or>
              (\<exists>t err msg left. CreateTemp env = Inr t \<and> name = t @ ''.processing'' \<and>
                 ffmpeg env t name = Failed err msg (Some left) \<and> files s2 name = Some left))"
  using assms
  by (auto simp: stage_def processVideoForFastStart_def os_Open_def write_file_def Let_def
      split: sum.splits option.splits prod.splits ffmpeg_run.splits)

lemma staged_artifacts_removed:
  "case handlerUploadVideo cfg env s of
     (resp, s') \<Rightarrow>
       \<exists>ms cs. created s' = created s @ ms @ cs \<and>
         (ms = [] \<or> ms = map fst (ParseMultipartForm_files env)) \<and>
         (\<forall>name. name \<in> set cs \<longrightarrow>
            files s' name = None \<or>
            (\<exists>t err msg left. CreateTemp env = Inr t \<and> name = t @ ''.processing'' \<and>
               ffmpeg env t name = Failed err msg (Some left) \<and> files s' name = Some left))"
proof (cases cfg env s rule: handler_cases)
  case (rejected resp s1 ds1)
  from intake_frame(2) [OF rejected(1)]
  obtain ms where ms: "created s1 = created s @ ms"
    "ms = [] \<or> ms = map fst (ParseMultipartForm_files env)"
    by auto
  have "\<exists>cs. created (run_deferred ds1 s1) = created s @ ms @ cs \<and>
      (ms = [] \<or> ms = map fst (ParseMultipartForm_files env)) \<and>
      (\<forall>name. name \<in> set cs \<longrightarrow>
         files (run_deferred ds1 s1) name = None \<or>
         (\<exists>t err msg left. CreateTemp env = Inr t \<and> name = t @ ''.processing'' \<and>
            ffmpeg env t name = Failed err msg (Some left) \<and>
            files (run_deferred ds1 s1) name = Some left))"
    using ms by (intro exI [of _ "[]"]) simp
  then show ?thesis
    using rejected(2) by (simp only: prod.case) blast
next
  case (unstaged video content s1 ds1 resp s2 ds2)
  from intake_frame(2) [OF unstaged(1)]
  obtain ms where ms: "created s1 = created s @ ms"
    "ms = [] \<or> ms = map fst (ParseMultipartForm_files env)"
    by auto
  from stage_cleanup [OF unstaged(2)] obtain cs where
    c: "created s2 = created s1 @ cs"
    and r: "\<forall>name. name \<in> set cs \<longrightarrow>
              Remove name \<in> set ds2 \<or>
              (\<exists>t err msg left. CreateTemp env = Inr t \<and> name = t @ ''.processing'' \<and>
                 ffmpeg env t name = Failed err msg (Some left) \<and> files s2 name = Some left)"
    by blast
  have "created (run_deferred ds2 s2) = created s @ ms @ cs"
    using c ms(1) by simp
  moreover have "\<forall>name. name \<in> set cs \<longrightarrow>
      files (run_deferred ds2 s2) name = None \<or>
      (\<exists>t err msg left. CreateTemp env = Inr t \<and> name = t @ ''.processing'' \<and>
         ffmpeg env t name = Failed err msg (Some left) \<and>
         files (run_deferred ds2 s2) name = Some left)"
    using r by (auto simp: run_deferred_files)
  ultimately show ?thesis
    using unstaged(3) ms(2) by auto
next
  case (published video content s1 ds1 t p s2 ds2 resp s3)
  from intake_frame(2) [OF published(1)]
  obtain ms where ms: "created s1 = created s @ ms"
    "ms = [] \<or> ms = map fst (ParseMultipartForm_files env)"
    by auto
  note st = stage_succeeds [OF published(2)]
  note pf = publish_frame [OF published(3)]
  have c: "created (run_deferred ds2 s3) = created s @ ms @ [t, p]"
    using st(7) pf(2) ms(1) by simp
  have m: "Remove t \<in> set ds2" "Remove p \<in> set ds2"
    using st(8) by simp_all
  have f: "files (run_deferred ds2 s3) t = None" "files (run_deferred ds2 s3) p = None"
    by (simp_all add: run_deferred_files m)
  have "\<exists>cs. created (run_deferred ds2 s3) = created s @ ms @ cs \<and>
      (ms = [] \<or> ms = map fst (ParseMultipartForm_files env)) \<and>
      (\<forall>name. name \<in> set cs \<longrightarrow>
         files (run_deferred ds2 s3) name = None \<or>
         (\<exists>t err msg left. CreateTemp env = Inr t \<and> name = t @ ''.processing'' \<and>
            ffmpeg env t name = Failed err msg (Some left) \<and>
            files (run_deferred ds2 s3) name = Some left))"
    using c ms(2) f by (intro exI [of _ "[t, p]"]) auto
  then show ?thesis
    using published(4) by (simp only: prod.case) blast
qed


section \<open>The example requests\<close>

lemma demo_admitted: "admitted demo_cfg demo_env"
  by (simp add: admitted_def owner_request_def demo_env_def demo_cfg_def demo_video_def
      uuid_Nil_def)

lemma demo_bucket: "\<not> blank (s3Bucket demo_cfg)" "CHR '','' \<notin> set (s3Bucket demo_cfg)"
  by (simp_all add: demo_cfg_def blank_def isSpace_def)

lemma demo_steps_succeed: "steps_succeed demo_cfg demo_env"
  by (simp add: steps_succeed_def demo_admitted demo_bucket remuxed_def)
    (simp add: demo_env_def)

lemma no_probe_steps_succeed: "steps_succeed demo_cfg no_probe_env"
  by (simp add: steps_succeed_def demo_bucket admitted_def owner_request_def remuxed_def
      no_probe_env_def)
    (simp add: demo_env_def demo_cfg_def demo_video_def uuid_Nil_def)

lemma empty_world_calls: "put_calls empty_world = []" "update_calls empty_world = []"
  by (simp_all add: empty_world_def)

lemma demo_geometry: "geometry demo_env ''/tmp/tubely-upload-1.mp4'' = Some (1920, 1080)"
  by (simp add: geometry_def demo_env_def)

lemma no_probe_geometry: "geometry no_probe_env ''/tmp/tubely-upload-1.mp4'' = None"
  by (simp add: geometry_def no_probe_env_def)

lemma demo_hex:
  "sprintf_x (replicate 32 0xAB) =
     ''abababababababababababababababababababababababababababababababab''"
  by code_simp

lemma demo_temp: "CreateTemp demo_env = Inr ''/tmp/tubely-upload-1.mp4''"
  by (simp add: demo_env_def)

lemma aspect_809x450: "aspect_of 809 450 = ''other''"
  by code_simp

lemma aspect_791x450: "aspect_of 791 450 = ''16:9''"
  by code_simp

lemma aspect_233x400: "aspect_of 233 400 = ''other''"
  by code_simp

lemma aspect_217x400: "aspect_of 217 400 = ''other''"
  by code_simp

lemma boundary_geometry: "geometry boundary_env ''/tmp/tubely-upload-1.mp4'' = Some (809, 450)"
  by (simp add: geometry_def boundary_env_def demo_env_def)


section \<open>Object keys\<close>

text \<open>
  Claim C1, as amended. For every successful upload the derived object key has the form
  \<open>prefix/hex.mp4\<close>, with 64 lower-case hexadecimal digits and a prefix that is one of
  \<open>landscape\<close>, \<open>portrait\<close> and \<open>other\<close>, and the reference handed to the database is
  the bucket, a comma and that key; an upload whose inspected geometry is 1920 by 1080 gets
  the prefix \<open>landscape\<close>.
\<close>

theorem upload_key_prefix:
  "case handlerUploadVideo cfg env s of
     (resp, s') \<Rightarrow>
       status resp = StatusOK \<longrightarrow>
         (\<exists>t p v prefix hex.
            CreateTemp env = Inr t \<and>
            put_calls s' = put_calls s @ [p] \<and> update_calls s' = update_calls s @ [v] \<and>
            Key p = prefix @ ''/'' @ hex @ ''.mp4'' \<and>
            prefix \<in> {''landscape'', ''portrait'', ''other''} \<and>
            length hex = 64 \<and> set hex \<subseteq> hex_chars \<and>
            VideoURL v = Some (commaDelimited_of (s3Bucket cfg) (Key p)) \<and>
            (geometry env t = Some (1920, 1080) \<longrightarrow> prefix = ''landscape''))"
proof (cases cfg env s rule: handler_calls)
  case (silent resp s')
  then show ?thesis by simp
next
  case (uploaded resp s' video content t bs rnd puts updates s1 ds1)
  let ?prefix = "prefix_of (getVideoAspectRatio env t)"
  let ?key = "s3Key_of ?prefix rnd"
  let ?p = "\<lparr>Bucket = s3Bucket cfg, Key = ?key, Body = bs, ContentType = ''video/mp4''\<rparr>"
  let ?v = "video\<lparr>VideoURL := Some (commaDelimited_of (s3Bucket cfg) ?key)\<rparr>"
  note pc = publication_calls [OF uploaded(11)]
  have "\<exists>t p v prefix hex.
            CreateTemp env = Inr t \<and>
            put_calls s' = put_calls s @ [p] \<and> update_calls s' = update_calls s @ [v] \<and>
            Key p = prefix @ ''/'' @ hex @ ''.mp4'' \<and>
            prefix \<in> {''landscape'', ''portrait'', ''other''} \<and>
            length hex = 64 \<and> set hex \<subseteq> hex_chars \<and>
            VideoURL v = Some (commaDelimited_of (s3Bucket cfg) (Key p)) \<and>
            (geometry env t = Some (1920, 1080) \<longrightarrow> prefix = ''landscape'')"
    if ok: "status resp = StatusOK"
  proof (intro exI conjI)
    show "CreateTemp env = Inr t" by (rule uploaded(3))
    show "put_calls s' = put_calls s @ [?p]"
      using uploaded(9) pc(1) by simp
    show "update_calls s' = update_calls s @ [?v]"
      using uploaded(10) pc(3) [OF ok] by simp
    show "Key ?p = ?prefix @ ''/'' @ sprintf_x rnd @ ''.mp4''"
      by (simp add: s3Key_of_def)
    show "?prefix \<in> {''landscape'', ''portrait'', ''other''}" by (rule prefix_of_cases)
    show "length (sprintf_x rnd) = 64"
      using ReadFull_length [OF uploaded(8)] by (simp add: sprintf_x_length)
    show "set (sprintf_x rnd) \<subseteq> hex_chars" by (rule sprintf_x_chars)
    show "VideoURL ?v = Some (commaDelimited_of (s3Bucket cfg) (Key ?p))" by simp
    show "geometry env t = Some (1920, 1080) \<longrightarrow> ?prefix = ''landscape''"
      by (simp add: prefix_1920x1080)
  qed
  with uploaded(1) show ?thesis by simp
qed

theorem upload_key_prefix_witness:
  "\<exists>p v hex.
     put_calls (snd (handlerUploadVideo demo_cfg demo_env empty_world)) = [p] \<and>
     update_calls (snd (handlerUploadVideo demo_cfg demo_env empty_world)) = [v] \<and>
     Key p = ''landscape/'' @ hex @ ''.mp4'' \<and> length hex = 64 \<and>
     VideoURL v = Some (commaDelimited_of (s3Bucket demo_cfg) (Key p))"
proof -
  obtain resp s' where h: "handlerUploadVideo demo_cfg demo_env empty_world = (resp, s')"
    by (cases "handlerUploadVideo demo_cfg demo_env empty_world") auto
  have ok: "status resp = StatusOK"
    using handler_succeeds_calls(1) [OF demo_steps_succeed, of empty_world] by (simp add: h)
  from upload_key_prefix [where cfg = demo_cfg and env = demo_env and s = empty_world] h ok
  have "\<exists>t p v prefix hex.
    CreateTemp demo_env = Inr t \<and>
    put_calls s' = put_calls empty_world @ [p] \<and> update_calls s' = update_calls empty_world @ [v] \<and>
    Key p = prefix @ ''/'' @ hex @ ''.mp4'' \<and>
    prefix \<in> {''landscape'', ''portrait'', ''other''} \<and>
    length hex = 64 \<and> set hex \<subseteq> hex_chars \<and>
    VideoURL v = Some (commaDelimited_of (s3Bucket demo_cfg) (Key p)) \<and>
    (geometry demo_env t = Some (1920, 1080) \<longrightarrow> prefix = ''landscape'')"
    by simp
  then obtain t p v prefix hex where
    "CreateTemp demo_env = Inr t"
    "put_calls s' = put_calls empty_world @ [p]" "update_calls s' = update_calls empty_world @ [v]"
    "Key p = prefix @ ''/'' @ hex @ ''.mp4''" "length hex = 64"
    "VideoURL v = Some (commaDelimited_of (s3Bucket demo_cfg) (Key p))"
    "geometry demo_env t = Some (1920, 1080) \<longrightarrow> prefix = ''landscape''"
    by blast
  then show ?thesis
    using demo_geometry by (auto simp: h demo_temp empty_world_calls)
qed

text \<open>
  Claim C1 as it is stated names the prefixes \<open>wide\<close>, \<open>tall\<close> and \<open>other\<close>. The
  successful upload of a 1920 by 1080 video is stored under a key that begins with
  \<open>landscape/\<close>, not with \<open>wide/\<close>.
\<close>

theorem upload_key_prefix_counterexample:
  "geometry demo_env ''/tmp/tubely-upload-1.mp4'' = Some (1920, 1080) \<and>
   status (fst (handlerUploadVideo demo_cfg demo_env empty_world)) = StatusOK \<and>
   map Key (put_calls (snd (handlerUploadVideo demo_cfg demo_env empty_world))) =
     [''landscape/abababababababababababababababababababababababababababababababab.mp4''] \<and>
   map VideoURL (update_calls (snd (handlerUploadVideo demo_cfg demo_env empty_world))) =
     [Some ''tubely-private-53827,landscape/abababababababababababababababababababababababababababababababab.mp4''] \<and>
   take 5 ''landscape/abababababababababababababababababababababababababababababababab.mp4''
     \<noteq> ''wide/''"
proof -
  from handler_succeeds [OF demo_steps_succeed, of empty_world]
  obtain video s' puts updates t bs rnd signedURL
    where h: "handlerUploadVideo demo_cfg demo_env empty_world =
        (JSONResponse StatusOK (video\<lparr>VideoURL := Some signedURL\<rparr>), s')"
      and t: "CreateTemp demo_env = Inr t"
      and r: "ReadFull (rand_Reader demo_env) 32 = Inr rnd"
      and p: "put_calls s' = put_calls empty_world @ puts"
        "update_calls s' = update_calls empty_world @ updates"
      and pb: "publication demo_cfg demo_env video t bs rnd
        (JSONResponse StatusOK (video\<lparr>VideoURL := Some signedURL\<rparr>)) puts updates"
    by blast
  from t have t': "t = ''/tmp/tubely-upload-1.mp4''" by (simp add: demo_env_def)
  from r have r': "rnd = replicate 32 0xAB" by (auto simp: demo_env_def ReadFull_def)
  have k: "s3Key_of (prefix_of (getVideoAspectRatio demo_env t)) rnd =
      ''landscape/abababababababababababababababababababababababababababababababab.mp4''"
    using prefix_1920x1080 [OF demo_geometry] by (simp add: t' r' s3Key_of_def demo_hex)
  have "map Key puts =
      [''landscape/abababababababababababababababababababababababababababababababab.mp4'']"
    using publication_calls(1) [OF pb] by (simp add: k)
  moreover have "map VideoURL updates =
      [Some ''tubely-private-53827,landscape/abababababababababababababababababababababababababababababababab.mp4'']"
    using publication_calls(3) [OF pb] by (simp add: k commaDelimited_of_def demo_cfg_def)
  ultimately show ?thesis
    using p by (simp add: h demo_geometry empty_world_calls)
qed

text \<open>
  Claim C10. Every key the pipeline derives is a prefix out of three, a slash, 64 lower-case
  hexadecimal digits and \<open>.mp4\<close>; it has exactly one slash and no comma. The reference
  the pipeline hands to the database is the bucket, a comma and that key, and for a bucket
  without a comma it splits back into exactly that pair, which is the only pair with a
  comma-free bucket that it encodes.
\<close>

theorem derived_key_pattern:
  "case handlerUploadVideo cfg env s of
     (resp, s') \<Rightarrow>
       (put_calls s' = put_calls s \<or>
        (\<exists>p prefix hex.
           put_calls s' = put_calls s @ [p] \<and> Key p = prefix @ ''/'' @ hex @ ''.mp4'' \<and>
           prefix \<in> {''landscape'', ''portrait'', ''other''} \<and>
           length hex = 64 \<and> set hex \<subseteq> hex_chars \<and>
           count_list (Key p) (CHR ''/'') = 1 \<and> CHR '','' \<notin> set (Key p) \<and>
           (update_calls s' = update_calls s \<or>
            (\<exists>v. update_calls s' = update_calls s @ [v] \<and>
               VideoURL v = Some (commaDelimited_of (s3Bucket cfg) (Key p)) \<and>
               (CHR '','' \<notin> set (s3Bucket cfg) \<longrightarrow>
                  SplitN (commaDelimited_of (s3Bucket cfg) (Key p)) (CHR '','') 2 =
                    [s3Bucket cfg, Key p] \<and>
                  (\<forall>b k. CHR '','' \<notin> set b \<and>
                     commaDelimited_of b k = commaDelimited_of (s3Bucket cfg) (Key p) \<longrightarrow>
                     b = s3Bucket cfg \<and> k = Key p))))))"
proof (cases cfg env s rule: handler_calls)
  case (silent resp s')
  then show ?thesis by simp
next
  case (uploaded resp s' video content t bs rnd puts updates s1 ds1)
  let ?prefix = "prefix_of (getVideoAspectRatio env t)"
  let ?key = "s3Key_of ?prefix rnd"
  let ?p = "\<lparr>Bucket = s3Bucket cfg, Key = ?key, Body = bs, ContentType = ''video/mp4''\<rparr>"
  let ?v = "video\<lparr>VideoURL := Some (commaDelimited_of (s3Bucket cfg) ?key)\<rparr>"
  note pc = publication_calls(1,2) [OF uploaded(11)]
  note k = s3Key_of_shape [OF prefix_of_cases, of "getVideoAspectRatio env t" rnd]
  have 1: "put_calls s' = put_calls s @ [?p]"
    using uploaded(9) pc(1) by simp
  have 2: "Key ?p = ?prefix @ ''/'' @ sprintf_x rnd @ ''.mp4''"
    by (simp add: s3Key_of_def)
  have 3: "length (sprintf_x rnd) = 64"
    using ReadFull_length [OF uploaded(8)] by (simp add: sprintf_x_length)
  have 4: "update_calls s' = update_calls s \<or> update_calls s' = update_calls s @ [?v]"
    using uploaded(10) pc(2) by auto
  have 5: "CHR '','' \<notin> set (s3Bucket cfg) \<longrightarrow>
      SplitN (commaDelimited_of (s3Bucket cfg) ?key) (CHR '','') 2 = [s3Bucket cfg, ?key] \<and>
      (\<forall>b k. CHR '','' \<notin> set b \<and>
         commaDelimited_of b k = commaDelimited_of (s3Bucket cfg) ?key \<longrightarrow>
         b = s3Bucket cfg \<and> k = ?key)"
  proof (intro impI conjI allI)
    assume c: "CHR '','' \<notin> set (s3Bucket cfg)"
    then show "SplitN (commaDelimited_of (s3Bucket cfg) ?key) (CHR '','') 2 = [s3Bucket cfg, ?key]"
      by (simp add: commaDelimited_of_def SplitN_joined)
    fix b k
    assume "CHR '','' \<notin> set b \<and> commaDelimited_of b k = commaDelimited_of (s3Bucket cfg) ?key"
    then have "SplitN (b @ CHR '','' # k) (CHR '','') 2 =
        SplitN (s3Bucket cfg @ CHR '','' # ?key) (CHR '','') 2" and "CHR '','' \<notin> set b"
      by (simp_all add: commaDelimited_of_def)
    with c show "b = s3Bucket cfg" "k = ?key"
      by (simp_all add: SplitN_joined)
  qed
  have "\<exists>p prefix hex.
           put_calls s' = put_calls s @ [p] \<and> Key p = prefix @ ''/'' @ hex @ ''.mp4'' \<and>
           prefix \<in> {''landscape'', ''portrait'', ''other''} \<and>
           length hex = 64 \<and> set hex \<subseteq> hex_chars \<and>
           count_list (Key p) (CHR ''/'') = 1 \<and> CHR '','' \<notin> set (Key p) \<and>
           (update_calls s' = update_calls s \<or>
            (\<exists>v. update_calls s' = update_calls s @ [v] \<and>
               VideoURL v = Some (commaDelimited_of (s3Bucket cfg) (Key p)) \<and>
               (CHR '','' \<notin> set (s3Bucket cfg) \<longrightarrow>
                  SplitN (commaDelimited_of (s3Bucket cfg) (Key p)) (CHR '','') 2 =
                    [s3Bucket cfg, Key p] \<and>
                  (\<forall>b k. CHR '','' \<notin> set b \<and>
                     commaDelimited_of b k = commaDelimited_of (s3Bucket cfg) (Key p) \<longrightarrow>
                     b = s3Bucket cfg \<and> k = Key p))))"
  proof (intro exI conjI)
    show "put_calls s' = put_calls s @ [?p]" by (rule 1)
    show "Key ?p = ?prefix @ ''/'' @ sprintf_x rnd @ ''.mp4''" by (rule 2)
    show "?prefix \<in> {''landscape'', ''portrait'', ''other''}" by (rule prefix_of_cases)
    show "length (sprintf_x rnd) = 64" by (rule 3)
    show "set (sprintf_x rnd) \<subseteq> hex_chars" by (rule sprintf_x_chars)
    show "count_list (Key ?p) (CHR ''/'') = 1" using k(1) by simp
    show "CHR '','' \<notin> set (Key ?p)" using k(2) by simp
    show "update_calls s' = update_calls s \<or>
            (\<exists>v. update_calls s' = update_calls s @ [v] \<and>
               VideoURL v = Some (commaDelimited_of (s3Bucket cfg) (Key ?p)) \<and>
               (CHR '','' \<notin> set (s3Bucket cfg) \<longrightarrow>
                  SplitN (commaDelimited_of (s3Bucket cfg) (Key ?p)) (CHR '','') 2 =
                    [s3Bucket cfg, Key ?p] \<and>
                  (\<forall>b k. CHR '','' \<notin> set b \<and>
                     commaDelimited_of b k = commaDelimited_of (s3Bucket cfg) (Key ?p) \<longrightarrow>
                     b = s3Bucket cfg \<and> k = Key ?p)))"
      using 4 5 by auto
  qed
  with uploaded(1) show ?thesis by simp
qed

theorem derived_key_pattern_witness:
  "\<exists>p prefix hex v.
     put_calls (snd (handlerUploadVideo demo_cfg demo_env empty_world)) = [p] \<and>
     Key p = prefix @ ''/'' @ hex @ ''.mp4'' \<and> length hex = 64 \<and> set hex \<subseteq> hex_chars \<and>
     count_list (Key p) (CHR ''/'') = 1 \<and> CHR '','' \<notin> set (Key p) \<and>
     update_calls (snd (handlerUploadVideo demo_cfg demo_env empty_world)) = [v] \<and>
     SplitN (commaDelimited_of (s3Bucket demo_cfg) (Key p)) (CHR '','') 2 =
       [s3Bucket demo_cfg, Key p]"
proof -
  obtain resp s' where h: "handlerUploadVideo demo_cfg demo_env empty_world = (resp, s')"
    by (cases "handlerUploadVideo demo_cfg demo_env empty_world") auto
  have c: "put_calls s' \<noteq> put_calls empty_world" "update_calls s' \<noteq> update_calls empty_world"
    using handler_succeeds_calls(2,3) [OF demo_steps_succeed, of empty_world] by (simp_all add: h)
  from derived_key_pattern [where cfg = demo_cfg and env = demo_env and s = empty_world] h c demo_bucket(2)
  show ?thesis
    by (auto simp: empty_world_calls)
qed

section \<open>Classification\<close>

text \<open>
  Claim C2 says that a ratio at exactly the tolerance from 16:9 or 9:16 is classified with
  that class. The code compares in \<open>float64\<close>: at 809 by 450 the ratio is exactly
  \<open>16/9 + 0.02\<close> and the result is \<open>other\<close>, also through \<open>getVideoAspectRatio\<close>,
  while at 791 by 450, exactly \<open>16/9 - 0.02\<close>, the result is \<open>16:9\<close>; 233 by 400 and
  217 by 400, at exactly \<open>9/16 + 0.02\<close> and \<open>9/16 - 0.02\<close>, are \<open>other\<close> too. Off these
  boundaries the code classifies as the exact ratio does (lemma \<open>aspect_of_off_boundary\<close>).
\<close>

theorem boundary_not_inclusive:
  "rat_of_int 809 / rat_of_int 450 - ratio169 = tol \<and>
   getVideoAspectRatio boundary_env ''/tmp/tubely-upload-1.mp4'' = Inr ''other'' \<and>
   aspect_of 809 450 = ''other'' \<and>
   ratio169 - rat_of_int 791 / rat_of_int 450 = tol \<and> aspect_of 791 450 = ''16:9'' \<and>
   rat_of_int 233 / rat_of_int 400 - ratio916 = tol \<and> aspect_of 233 400 = ''other'' \<and>
   ratio916 - rat_of_int 217 / rat_of_int 400 = tol \<and> aspect_of 217 400 = ''other''"
  by (simp add: getVideoAspectRatio_geometry [OF boundary_geometry] aspect_809x450 aspect_791x450
      aspect_233x400 aspect_217x400 ratio169_def ratio916_def tol_def)

section \<open>Intake\<close>




section \<open>Staged files\<close>

text \<open>
  Claim C4 says that every staged file is removed on every exit path. When the remux tool
  fails after it has created its output file, \<open>processVideoForFastStart\<close> returns an
  error, the handler returns before it defers the removal of that file, and the file stays:
  here the staged original is gone and the output of the failed remux is still there. On
  every other path every file the handler or the tool created during the run is removed
  (lemma \<open>staged_artifacts_removed\<close>).
\<close>

theorem remux_failure_leaves_output:
  "files empty_world ''/tmp/tubely-upload-1.mp4.processing'' = None \<and>
   fst (handlerUploadVideo demo_cfg remux_fail_env empty_world) =
     ErrorResponse StatusInternalServerError ''Failed to process video for fast start'' \<and>
   created (snd (handlerUploadVideo demo_cfg remux_fail_env empty_world)) =
     [''/tmp/tubely-upload-1.mp4'', ''/tmp/tubely-upload-1.mp4.processing''] \<and>
   files (snd (handlerUploadVideo demo_cfg remux_fail_env empty_world))
     ''/tmp/tubely-upload-1.mp4'' = None \<and>
   files (snd (handlerUploadVideo demo_cfg remux_fail_env empty_world))
     ''/tmp/tubely-upload-1.mp4.processing'' = Some []"
  by code_simp

section \<open>Publication\<close>

text \<open>
  Claim C5. A run makes at most one upload, only after the remux tool has exited without
  error, and the bytes it uploads are the bytes the tool wrote. When the tool fails nothing
  is uploaded and the response is an error, the 500 of the remux step whenever the request
  reaches that step.
\<close>

theorem upload_after_remux:
  "case handlerUploadVideo cfg env s of
     (resp, s') \<Rightarrow>
       (put_calls s' = put_calls s \<or>
        (\<exists>t bs p. CreateTemp env = Inr t \<and> ffmpeg env t (t @ ''.processing'') = Done bs \<and>
           put_calls s' = put_calls s @ [p] \<and> Body p = bs)) \<and>
       (\<forall>t err msg left.
          CreateTemp env = Inr t \<and> ffmpeg env t (t @ ''.processing'') = Failed err msg left \<longrightarrow>
            put_calls s' = put_calls s \<and> status resp \<noteq> StatusOK \<and>
            (admitted cfg env \<and> Copy env = None \<and> Seek env = None \<longrightarrow>
               resp = ErrorResponse StatusInternalServerError
                        ''Failed to process video for fast start''))"
proof -
  have 1: "case handlerUploadVideo cfg env s of
      (resp, s') \<Rightarrow>
        (put_calls s' = put_calls s \<and> status resp \<noteq> StatusOK) \<or>
        (\<exists>t bs p. CreateTemp env = Inr t \<and> ffmpeg env t (t @ ''.processing'') = Done bs \<and>
           put_calls s' = put_calls s @ [p] \<and> Body p = bs)"
  proof (cases cfg env s rule: handler_calls)
    case (silent resp s')
    then show ?thesis by simp
  next
    case (uploaded resp s' video content t bs rnd puts updates s1 ds1)
    from publication_calls(1) [OF uploaded(11)] uploaded(1,3,6,9) show ?thesis by auto
  qed
  have 2: "fst (handlerUploadVideo cfg env s) =
      ErrorResponse StatusInternalServerError ''Failed to process video for fast start''"
    if t: "CreateTemp env = Inr t" and f: "ffmpeg env t (t @ ''.processing'') = Failed err msg left"
      and a: "admitted cfg env" and c: "Copy env = None" "Seek env = None"
    for t err msg left
  proof -
    from intake_admits [OF a, of s] obtain video content s1 ds1
      where i: "intake cfg env s = (Inr (video, ''video/mp4'', content), s1, ds1)" by blast
    from stage_remux_failed [OF t f, of content ds1 s1] c
    have "fst (stage env content ds1 s1) =
        Inl (ErrorResponse StatusInternalServerError ''Failed to process video for fast start'')"
      by auto
    then show ?thesis
      by (cases "stage env content ds1 s1")
        (simp add: handlerUploadVideo_def handlerUploadVideo_body_def i)
  qed
  obtain resp s' where h: "handlerUploadVideo cfg env s = (resp, s')"
    by (cases "handlerUploadVideo cfg env s") auto
  from 1 h have d: "(put_calls s' = put_calls s \<and> status resp \<noteq> StatusOK) \<or>
      (\<exists>t bs p. CreateTemp env = Inr t \<and> ffmpeg env t (t @ ''.processing'') = Done bs \<and>
         put_calls s' = put_calls s @ [p] \<and> Body p = bs)"
    by simp
  then have a: "put_calls s' = put_calls s \<or>
      (\<exists>t bs p. CreateTemp env = Inr t \<and> ffmpeg env t (t @ ''.processing'') = Done bs \<and>
         put_calls s' = put_calls s @ [p] \<and> Body p = bs)"
    by blast
  have b: "\<forall>t err msg left.
      CreateTemp env = Inr t \<and> ffmpeg env t (t @ ''.processing'') = Failed err msg left \<longrightarrow>
        put_calls s' = put_calls s \<and> status resp \<noteq> StatusOK \<and>
        (admitted cfg env \<and> Copy env = None \<and> Seek env = None \<longrightarrow>
           resp = ErrorResponse StatusInternalServerError
                    ''Failed to process video for fast start'')"
  proof (intro allI impI, elim conjE)
    fix t err msg left
    assume t: "CreateTemp env = Inr t"
      and f: "ffmpeg env t (t @ ''.processing'') = Failed err msg left"
    from d t f have "put_calls s' = put_calls s \<and> status resp \<noteq> StatusOK"
      by auto
    moreover have "resp = ErrorResponse StatusInternalServerError
        ''Failed to process video for fast start''"
      if "admitted cfg env \<and> Copy env = None \<and> Seek env = None"
      using 2 [OF t f] that h by simp
    ultimately show "put_calls s' = put_calls s \<and> status resp \<noteq> StatusOK \<and>
        (admitted cfg env \<and> Copy env = None \<and> Seek env = None \<longrightarrow>
           resp = ErrorResponse StatusInternalServerError
                    ''Failed to process video for fast start'')"
      by blast
  qed
  from a b show ?thesis by (simp add: h)
qed

theorem upload_after_remux_witness:
  "fst (handlerUploadVideo demo_cfg remux_fail_env empty_world) =
     ErrorResponse StatusInternalServerError ''Failed to process video for fast start'' \<and>
   put_calls (snd (handlerUploadVideo demo_cfg remux_fail_env empty_world)) = [] \<and>
   (\<exists>p. put_calls (snd (handlerUploadVideo demo_cfg demo_env empty_world)) = [p] \<and>
      Body p = [3, 1, 2])"
proof -
  have t: "CreateTemp remux_fail_env = Inr ''/tmp/tubely-upload-1.mp4''"
    and f: "ffmpeg remux_fail_env ''/tmp/tubely-upload-1.mp4''
        (''/tmp/tubely-upload-1.mp4'' @ ''.processing'') =
      Failed (Failure ''exit status 1'') ''Could not write header for output file'' (Some [])"
    and a: "admitted demo_cfg remux_fail_env"
    and c: "Copy remux_fail_env = None" "Seek remux_fail_env = None"
    by (simp_all add: remux_fail_env_def demo_env_def admitted_def owner_request_def
        demo_cfg_def demo_video_def uuid_Nil_def)
  have d: "ffmpeg demo_env t (t @ ''.processing'') = Done bs \<Longrightarrow> bs = [3, 1, 2]" for t bs
    by (simp add: demo_env_def)
  have n: "put_calls (snd (handlerUploadVideo demo_cfg demo_env empty_world)) \<noteq>
      put_calls empty_world"
    by (rule handler_succeeds_calls(2) [OF demo_steps_succeed])
  have 1: "fst (handlerUploadVideo demo_cfg remux_fail_env empty_world) =
     ErrorResponse StatusInternalServerError ''Failed to process video for fast start'' \<and>
   put_calls (snd (handlerUploadVideo demo_cfg remux_fail_env empty_world)) = []"
    using upload_after_remux [where cfg = demo_cfg and env = remux_fail_env and s = empty_world] t f a c
    by (cases "handlerUploadVideo demo_cfg remux_fail_env empty_world")
      (auto simp: empty_world_calls)
  have 2: "\<exists>p. put_calls (snd (handlerUploadVideo demo_cfg demo_env empty_world)) = [p] \<and>
      Body p = [3, 1, 2]"
    using upload_after_remux [where cfg = demo_cfg and env = demo_env and s = empty_world] n d
    by (cases "handlerUploadVideo demo_cfg demo_env empty_world")
      (auto simp: empty_world_calls)
  from 1 2 show ?thesis by simp
qed

text \<open>
  Claim C6. When the inspection fails or reports no stream with strictly positive width and
  height, the key of any upload the run makes has the prefix \<open>other\<close>, and the failure is
  not reported: if every other step succeeds the response is 200 and the upload was made.
\<close>

theorem inspection_failure_not_fatal:
  assumes "CreateTemp env = Inr t" and "geometry env t = None"
  shows "case handlerUploadVideo cfg env s of
           (resp, s') \<Rightarrow>
             (put_calls s' = put_calls s \<or>
              (\<exists>p hex. put_calls s' = put_calls s @ [p] \<and> Key p = ''other/'' @ hex @ ''.mp4'')) \<and>
             (steps_succeed cfg env \<longrightarrow>
                status resp = StatusOK \<and>
                (\<exists>p hex. put_calls s' = put_calls s @ [p] \<and> Key p = ''other/'' @ hex @ ''.mp4''))"
proof -
  have o: "prefix_of (getVideoAspectRatio env t) = ''other''"
    using assms(2) by (simp add: getVideoAspectRatio_no_geometry prefix_of_error)
  have k: "\<exists>p hex. puts = [p] \<and> Key p = ''other/'' @ hex @ ''.mp4''"
    if "publication cfg env video t bs rnd resp puts updates" for video bs rnd resp puts updates
    using publication_calls(1) [OF that] by (simp add: o s3Key_of_def)
  have 1: "case handlerUploadVideo cfg env s of
      (resp, s') \<Rightarrow>
        put_calls s' = put_calls s \<or>
        (\<exists>p hex. put_calls s' = put_calls s @ [p] \<and> Key p = ''other/'' @ hex @ ''.mp4'')"
  proof (cases cfg env s rule: handler_calls)
    case (silent resp s')
    then show ?thesis by simp
  next
    case (uploaded resp s' video content t' bs rnd puts updates s1 ds1)
    with assms(1) have "publication cfg env video t bs rnd resp puts updates" by simp
    from k [OF this] uploaded(1,9) show ?thesis by auto
  qed
  have 2: "case handlerUploadVideo cfg env s of
      (resp, s') \<Rightarrow>
        status resp = StatusOK \<and>
        (\<exists>p hex. put_calls s' = put_calls s @ [p] \<and> Key p = ''other/'' @ hex @ ''.mp4'')"
    if "steps_succeed cfg env"
  proof -
    from handler_succeeds [OF that, of s] obtain video s' puts updates t' bs rnd signedURL
      where h: "handlerUploadVideo cfg env s =
          (JSONResponse StatusOK (video\<lparr>VideoURL := Some signedURL\<rparr>), s')"
        and t': "CreateTemp env = Inr t'"
        and p: "put_calls s' = put_calls s @ puts"
        and pb: "publication cfg env video t' bs rnd
          (JSONResponse StatusOK (video\<lparr>VideoURL := Some signedURL\<rparr>)) puts updates"
      by blast
    from t' assms(1) pb have "publication cfg env video t bs rnd
          (JSONResponse StatusOK (video\<lparr>VideoURL := Some signedURL\<rparr>)) puts updates" by simp
    from k [OF this] h p show ?thesis by auto
  qed
  from 1 2 show ?thesis
    by (cases "handlerUploadVideo cfg env s") auto
qed

theorem inspection_failure_not_fatal_witness:
  "status (fst (handlerUploadVideo demo_cfg no_probe_env empty_world)) = StatusOK \<and>
   (\<exists>p hex. put_calls (snd (handlerUploadVideo demo_cfg no_probe_env empty_world)) = [p] \<and>
      Key p = ''other/'' @ hex @ ''.mp4'')"
proof -
  have t: "CreateTemp no_probe_env = Inr ''/tmp/tubely-upload-1.mp4''"
    by (simp add: no_probe_env_def demo_env_def)
  show ?thesis
    using inspection_failure_not_fatal [OF t no_probe_geometry, where cfg = demo_cfg and s = empty_world]
      no_probe_steps_succeed
    by (cases "handlerUploadVideo demo_cfg no_probe_env empty_world")
      (auto simp: empty_world_calls)
qed

section \<open>The reference materializer\<close>

text \<open>
  Claim C7. \<open>dbVideoToSignedVideo\<close> returns an error exactly when the stored reference is
  malformed (absent, blank, without a comma, or with an empty or whitespace-only location
  or key) or when the signing call fails; whenever it returns an error, the video it
  returns is the video it was given.
\<close>

theorem materializer_errors:
  "(snd (dbVideoToSignedVideo env video) \<noteq> None \<longleftrightarrow>
      malformed (VideoURL video) \<or> signing_fails env (VideoURL video)) \<and>
   (snd (dbVideoToSignedVideo env video) \<noteq> None \<longrightarrow>
      fst (dbVideoToSignedVideo env video) = video)"
proof (cases "malformed (VideoURL video)")
  case True
  then show ?thesis
    by (simp add: dbVideoToSignedVideo_malformed)
next
  case False
  then obtain url where u: "VideoURL video = Some url"
    by (cases "VideoURL video") (auto simp: malformed_def)
  with False have n: "\<not> malformed (Some url)" by simp
  show ?thesis
    using False u
    by (simp add: dbVideoToSignedVideo_wellformed [OF u n] signing_fails_def split: sum.splits)
qed

theorem materializer_errors_witness:
  "snd (dbVideoToSignedVideo demo_env (demo_video\<lparr>VideoURL := Some ''no separator''\<rparr>)) \<noteq> None \<and>
   fst (dbVideoToSignedVideo demo_env (demo_video\<lparr>VideoURL := Some ''no separator''\<rparr>)) =
     demo_video\<lparr>VideoURL := Some ''no separator''\<rparr> \<and>
   snd (dbVideoToSignedVideo demo_env (demo_video\<lparr>VideoURL := Some ''bucket,key''\<rparr>)) = None"
proof -
  have 1: "malformed (VideoURL (demo_video\<lparr>VideoURL := Some ''no separator''\<rparr>))"
    by (simp add: malformed_def)
  have 2: "\<not> malformed (VideoURL (demo_video\<lparr>VideoURL := Some ''bucket,key''\<rparr>))"
    by (simp add: malformed_def blank_def location_part_def key_part_def isSpace_def)
  have 3: "\<not> signing_fails demo_env (VideoURL (demo_video\<lparr>VideoURL := Some ''bucket,key''\<rparr>))"
    by (simp add: signing_fails_def demo_env_def)
  show ?thesis
    using materializer_errors [of demo_env "demo_video\<lparr>VideoURL := Some ''no separator''\<rparr>"]
      materializer_errors [of demo_env "demo_video\<lparr>VideoURL := Some ''bucket,key''\<rparr>"]
      1 2 3
    by blast
qed

text \<open>
  Claim C8. For a bucket without a comma and a non-empty key, neither with surrounding
  whitespace, the string \<open>bucket,key\<close> split at its first comma and trimmed gives back
  the bucket and the key, and the materializer signs exactly that pair when the bucket is
  not empty; for a bucket with a comma the split does not give back the pair.
\<close>

theorem reference_round_trip:
  "(CHR '','' \<notin> set bucket \<and> key \<noteq> [] \<and> trimmed bucket \<and> trimmed key \<longrightarrow>
      map TrimSpace (SplitN (commaDelimited_of bucket key) (CHR '','') 2) = [bucket, key] \<and>
      (bucket \<noteq> [] \<longrightarrow>
         dbVideoToSignedVideo env (video\<lparr>VideoURL := Some (commaDelimited_of bucket key)\<rparr>) =
           (case PresignGetObject env bucket key (15 * Minute) of
              Inl err \<Rightarrow> (video\<lparr>VideoURL := Some (commaDelimited_of bucket key)\<rparr>, Some err)
            | Inr signedURL \<Rightarrow> (video\<lparr>VideoURL := Some signedURL\<rparr>, None)))) \<and>
   (CHR '','' \<in> set bucket' \<longrightarrow>
      map TrimSpace (SplitN (commaDelimited_of bucket' key') (CHR '','') 2) \<noteq> [bucket', key'])"
proof (intro conjI impI)
  assume "CHR '','' \<notin> set bucket \<and> key \<noteq> [] \<and> trimmed bucket \<and> trimmed key"
  then show "map TrimSpace (SplitN (commaDelimited_of bucket key) (CHR '','') 2) = [bucket, key]"
    using SplitN_joined [of "CHR '',''" bucket key]
    by (simp add: TrimSpace_trimmed commaDelimited_of_def)
next
  assume h: "CHR '','' \<notin> set bucket \<and> key \<noteq> [] \<and> trimmed bucket \<and> trimmed key"
    and b: "bucket \<noteq> []"
  let ?v = "video\<lparr>VideoURL := Some (commaDelimited_of bucket key)\<rparr>"
  have u: "VideoURL ?v = Some (bucket @ CHR '','' # key)"
    by (simp add: commaDelimited_of_def)
  have n: "\<not> malformed (Some (bucket @ CHR '','' # key))"
    using h b by (simp add: joined_wellformed)
  show "dbVideoToSignedVideo env ?v =
          (case PresignGetObject env bucket key (15 * Minute) of
             Inl err \<Rightarrow> (?v, Some err)
           | Inr signedURL \<Rightarrow> (video\<lparr>VideoURL := Some signedURL\<rparr>, None))"
    using h b
    by (simp add: dbVideoToSignedVideo_wellformed [OF u n] joined_wellformed TrimSpace_trimmed
        split: sum.splits)
next
  assume c: "CHR '','' \<in> set bucket'"
  show "map TrimSpace (SplitN (commaDelimited_of bucket' key') (CHR '','') 2) \<noteq> [bucket', key']"
  proof
    assume "map TrimSpace (SplitN (commaDelimited_of bucket' key') (CHR '','') 2) = [bucket', key']"
    then obtain x y where xy: "SplitN (commaDelimited_of bucket' key') (CHR '','') 2 = [x, y]"
      and b: "TrimSpace x = bucket'"
      by (auto simp: map_eq_Cons_conv)
    have "CHR '','' \<notin> set x" using xy by (rule SplitN_first_no_sep)
    moreover have "set (TrimSpace x) \<subseteq> set x"
      by (auto simp: TrimSpace_def dest!: set_dropWhileD)
    ultimately show False using b c by blast
  qed
qed

theorem reference_round_trip_witness:
  "map TrimSpace (SplitN (commaDelimited_of ''tubely-private-53827'' ''portrait/abc.mp4'')
      (CHR '','') 2) = [''tubely-private-53827'', ''portrait/abc.mp4''] \<and>
   dbVideoToSignedVideo demo_env
      (demo_video\<lparr>VideoURL := Some (commaDelimited_of ''tubely-private-53827'' ''portrait/abc.mp4'')\<rparr>) =
     (demo_video\<lparr>VideoURL := Some ''https://tubely-private-53827/portrait/abc.mp4?sig''\<rparr>, None) \<and>
   map TrimSpace (SplitN (commaDelimited_of ''a,b'' ''k'') (CHR '','') 2) \<noteq> [''a,b'', ''k'']"
proof -
  have h: "CHR '','' \<notin> set ''tubely-private-53827'' \<and> ''portrait/abc.mp4'' \<noteq> [] \<and>
      trimmed ''tubely-private-53827'' \<and> trimmed ''portrait/abc.mp4''"
    by (simp add: trimmed_def isSpace_def)
  have b: "''tubely-private-53827'' \<noteq> []" by simp
  have c: "CHR '','' \<in> set ''a,b''" by simp
  have p: "PresignGetObject demo_env ''tubely-private-53827'' ''portrait/abc.mp4'' (15 * Minute) =
      Inr ''https://tubely-private-53827/portrait/abc.mp4?sig''"
    by (simp add: demo_env_def)
  show ?thesis
    using reference_round_trip [of "''tubely-private-53827''" "''portrait/abc.mp4''" demo_env
        demo_video "''a,b''" "''k''"] h b c p
    by simp
qed


text \<open>
  Claim C9. The only record a run hands to the database carries the reference
  \<open>bucket,key\<close>; a successful run hands over exactly one and answers with the same record
  in which the signed URL stands in place of the reference. \<open>dbVideoToSignedVideo\<close>
  changes nothing but that field of the record it returns.
\<close>

theorem signed_url_not_persisted:
  "case handlerUploadVideo cfg env s of
     (resp, s') \<Rightarrow>
       (update_calls s' = update_calls s \<or>
        (\<exists>video key.
           update_calls s' =
             update_calls s @ [video\<lparr>VideoURL := Some (commaDelimited_of (s3Bucket cfg) key)\<rparr>] \<and>
           (status resp = StatusOK \<longrightarrow>
              (\<exists>bucket key' signedURL.
                 PresignGetObject env bucket key' (15 * Minute) = Inr signedURL \<and>
                 resp = JSONResponse StatusOK (video\<lparr>VideoURL := Some signedURL\<rparr>))))) \<and>
       (status resp = StatusOK \<longrightarrow> update_calls s' \<noteq> update_calls s) \<and>
       (\<forall>video.
          fst (dbVideoToSignedVideo env video) = video \<or>
          (\<exists>signedURL. dbVideoToSignedVideo env video = (video\<lparr>VideoURL := Some signedURL\<rparr>, None)))"
proof -
  have d: "\<forall>video.
          fst (dbVideoToSignedVideo env video) = video \<or>
          (\<exists>signedURL. dbVideoToSignedVideo env video = (video\<lparr>VideoURL := Some signedURL\<rparr>, None))"
    using dbVideoToSignedVideo_result [of env] by (metis fst_conv)
  show ?thesis
  proof (cases cfg env s rule: handler_calls)
    case (silent resp s')
    then show ?thesis using d by simp
  next
    case (uploaded resp s' video content t bs rnd puts updates s1 ds1)
    let ?key = "s3Key_of (prefix_of (getVideoAspectRatio env t)) rnd"
    let ?v = "video\<lparr>VideoURL := Some (commaDelimited_of (s3Bucket cfg) ?key)\<rparr>"
    note pc = publication_calls [OF uploaded(11)]
    have 1: "update_calls s' = update_calls s \<or> update_calls s' = update_calls s @ [?v]"
      using uploaded(10) pc(2) by auto
    have 2: "status resp = StatusOK \<longrightarrow>
        update_calls s' = update_calls s @ [?v] \<and>
        (\<exists>bucket key' signedURL.
           PresignGetObject env bucket key' (15 * Minute) = Inr signedURL \<and>
           resp = JSONResponse StatusOK (video\<lparr>VideoURL := Some signedURL\<rparr>))"
      using uploaded(10) pc(3) by auto
    have "(update_calls s' = update_calls s \<or>
        (\<exists>video key.
           update_calls s' =
             update_calls s @ [video\<lparr>VideoURL := Some (commaDelimited_of (s3Bucket cfg) key)\<rparr>] \<and>
           (status resp = StatusOK \<longrightarrow>
              (\<exists>bucket key' signedURL.
                 PresignGetObject env bucket key' (15 * Minute) = Inr signedURL \<and>
                 resp = JSONResponse StatusOK (video\<lparr>VideoURL := Some signedURL\<rparr>))))) \<and>
       (status resp = StatusOK \<longrightarrow> update_calls s' \<noteq> update_calls s)"
    proof (cases "update_calls s' = update_calls s")
      case True
      with 2 show ?thesis by simp
    next
      case False
      with 1 have u: "update_calls s' = update_calls s @ [?v]" by simp
      have "\<exists>video key.
           update_calls s' =
             update_calls s @ [video\<lparr>VideoURL := Some (commaDelimited_of (s3Bucket cfg) key)\<rparr>] \<and>
           (status resp = StatusOK \<longrightarrow>
              (\<exists>bucket key' signedURL.
                 PresignGetObject env bucket key' (15 * Minute) = Inr signedURL \<and>
                 resp = JSONResponse StatusOK (video\<lparr>VideoURL := Some signedURL\<rparr>)))"
        using u 2 by blast
      with False show ?thesis by blast
    qed
    with uploaded(1) d show ?thesis by simp
  qed
qed

theorem signed_url_not_persisted_witness:
  "\<exists>video key signedURL.
     update_calls (snd (handlerUploadVideo demo_cfg demo_env empty_world)) =
       [video\<lparr>VideoURL := Some (commaDelimited_of (s3Bucket demo_cfg) key)\<rparr>] \<and>
     fst (handlerUploadVideo demo_cfg demo_env empty_world) =
       JSONResponse StatusOK (video\<lparr>VideoURL := Some signedURL\<rparr>)"
proof -
  obtain resp s' where h: "handlerUploadVideo demo_cfg demo_env empty_world = (resp, s')"
    by (cases "handlerUploadVideo demo_cfg demo_env empty_world") auto
  have ok: "status resp = StatusOK"
    using handler_succeeds_calls(1) [OF demo_steps_succeed, of empty_world] by (simp add: h)
  from signed_url_not_persisted [where cfg = demo_cfg and env = demo_env and s = empty_world] h ok
  show ?thesis
    by (auto simp: empty_world_calls)
qed

end
